theory Spec2Isabelle
  imports Main "HOL-Library.Sublist" "HOL-Library.Char_ord" "HOL-Library.List_Lexorder"
    "HOL-Library.Multiset"
begin

section \<open>Strings\<close>

text \<open>
  JavaScript strings are modelled as \<^typ>\<open>string\<close>, read as the UTF-8 bytes of the text (the
  encoding in which the merged file is written). The box-drawing characters of the tree diagram
  are therefore three bytes each.
\<close>

definition newline :: char where
  "newline = CHR 0x0A"

definition elbow :: string where
  "elbow = [CHR 0xE2, CHR 0x94, CHR 0x94, CHR 0xE2, CHR 0x94, CHR 0x80, CHR '' '']"

definition tee :: string where
  "tee = [CHR 0xE2, CHR 0x94, CHR 0x9C, CHR 0xE2, CHR 0x94, CHR 0x80, CHR '' '']"

definition pipe :: string where
  "pipe = [CHR 0xE2, CHR 0x94, CHR 0x82, CHR '' '', CHR '' '']"

definition blank3 :: string where
  "blank3 = ''   ''"

text \<open>\<open>s.split(sep)\<close> for a one-character separator: the pieces between the separators,
  \<open>[""]\<close> for the empty string.\<close>

fun split_at :: "char \<Rightarrow> string \<Rightarrow> string list" where
  "split_at sep [] = [[]]"
| "split_at sep (c # cs) =
     (if c = sep then [] # split_at sep cs
      else (case split_at sep cs of
              [] \<Rightarrow> [[c]]
            | l # ls \<Rightarrow> (c # l) # ls))"

text \<open>\<open>xs.join(sep)\<close>.\<close>

fun join :: "string \<Rightarrow> string list \<Rightarrow> string" where
  "join sep [] = []"
| "join sep [x] = x"
| "join sep (x # y # ys) = x @ sep @ join sep (y # ys)"

text \<open>\<open>s.includes(t)\<close>: \<open>t\<close> occurs in \<open>s\<close> as a contiguous run.\<close>

fun includes_str :: "string \<Rightarrow> string \<Rightarrow> bool" where
  "includes_str [] t = (t = [])"
| "includes_str (c # cs) t = (prefix t (c # cs) \<or> includes_str cs t)"

definition lower_char :: "char \<Rightarrow> char" where
  "lower_char c =
     (if CHR ''A'' \<le> c \<and> c \<le> CHR ''Z'' then char_of (of_char c + (32::nat)) else c)"

text \<open>
  \<open>String.prototype.toLowerCase\<close> follows the case mappings of Unicode, which the host
  brings with it, so it is a parameter of everything that calls it. A \<open>caseMapping\<close> is a
  function on strings under which the empty string, and no other string, becomes the empty
  string (the lower-case mapping of a code point is never empty); \<open>toLowerCase cm s\<close> is
  \<open>s.toLowerCase()\<close> under the mapping \<open>cm\<close>. Nothing else is assumed of it.
\<close>

typedef caseMapping = "{f :: string \<Rightarrow> string. \<forall>s. (f s = []) = (s = [])}"
  morphisms toLowerCase CaseMapping
  by (rule exI [of _ id]) simp

setup_lifting type_definition_caseMapping

text \<open>The case mapping of the ASCII letters: what \<open>toLowerCase\<close> computes on a text of ASCII
  characters, whatever the host. The examples are evaluated with it.\<close>

lift_definition asciiLower :: caseMapping is "map lower_char"
  by simp

text \<open>
  The UTF-16 code units of a text given by its UTF-8 bytes: JavaScript compares strings code
  unit by code unit, and the default \<open>sort\<close> orders them so. A code point above U+FFFF is a
  pair of surrogates, which sorts before the code points U+E000 to U+FFFF, unlike its bytes.
  (A byte that starts no well-formed sequence counts as U+FFFD; the strings of the program are
  decoded text and have none.)
\<close>

fun utf16 :: "string \<Rightarrow> int list" where
  "utf16 [] = []"
| "utf16 (b # bs) =
     (let n = (of_char b :: int) in
      if n < 0x80 then n # utf16 bs
      else if 0xC0 \<le> n \<and> n < 0xE0 then
        (case bs of
           c1 # r \<Rightarrow> ((n - 0xC0) * 64 + (of_char c1 - 0x80)) # utf16 r
         | _ \<Rightarrow> 0xFFFD # utf16 bs)
      else if 0xE0 \<le> n \<and> n < 0xF0 then
        (case bs of
           c1 # c2 # r \<Rightarrow>
             ((n - 0xE0) * 4096 + (of_char c1 - 0x80) * 64 + (of_char c2 - 0x80)) # utf16 r
         | _ \<Rightarrow> 0xFFFD # utf16 bs)
      else if 0xF0 \<le> n \<and> n < 0xF8 then
        (case bs of
           c1 # c2 # c3 # r \<Rightarrow>
             (let cp = (n - 0xF0) * 262144 + (of_char c1 - 0x80) * 4096
                         + (of_char c2 - 0x80) * 64 + (of_char c3 - 0x80) - 0x10000
              in (0xD800 + cp div 1024) # (0xDC00 + cp mod 1024) # utf16 r)
         | _ \<Rightarrow> 0xFFFD # utf16 bs)
      else 0xFFFD # utf16 bs)"

text \<open>The default \<open>Array.prototype.sort\<close> on strings: a stable sort by code units.\<close>

definition sortStrings :: "string list \<Rightarrow> string list" where
  "sortStrings xs = sort_key utf16 xs"

section \<open>The file tree and its diagram\<close>

datatype ntype = TFile | TDirectory

text \<open>\<open>interface FileTree { name; type; children? }\<close>: a file node has no \<open>children\<close>
  field, a directory node has an array.\<close>

datatype FileTree = FileTree (name: string) (ntype: ntype) (children: "FileTree list option")

text \<open>
  \<open>generateTreeString\<close>: the line of the node, then the lines of its children under the
  child prefix. \<open>forEachChild\<close> is the \<open>forEach\<close> loop, with the index of the next child
  and the length of the array.
\<close>

fun generateTreeString :: "FileTree \<Rightarrow> string \<Rightarrow> bool \<Rightarrow> string"
  and forEachChild :: "FileTree list \<Rightarrow> string \<Rightarrow> nat \<Rightarrow> nat \<Rightarrow> string"
where
  "generateTreeString (FileTree nm ty ch) pre isLast =
     (let marker = (if isLast then elbow else tee);
          tree = pre @ marker @ nm @ [newline]
      in case ch of
           None \<Rightarrow> tree
         | Some cs \<Rightarrow>
             (let childPrefix = pre @ (if isLast then blank3 else pipe)
              in tree @ forEachChild cs childPrefix 0 (length cs)))"
| "forEachChild [] childPrefix index len = []"
| "forEachChild (child # rest) childPrefix index len =
     generateTreeString child childPrefix (index = len - 1)
       @ forEachChild rest childPrefix (Suc index) len"

text \<open>The diagram of the header, as \<open>mergeRepositoryFiles\<close> computes it:
  \<open>repoName + "/\n" + generateTreeString(fileTree, "", true).split("\n").slice(2).join("\n")\<close>.\<close>

definition treeString :: "string \<Rightarrow> FileTree \<Rightarrow> string" where
  "treeString repoName fileTree =
     repoName @ ''/'' @ [newline]
       @ join [newline] (drop 2 (split_at newline (generateTreeString fileTree [] True)))"

section \<open>The cloned directory\<close>

text \<open>
  What \<open>fs.readdirSync\<close> and \<open>fs.statSync\<close> see of a cloned directory: a directory is the
  list of its entries in the order \<open>readdirSync\<close> returns them, a file has its contents
  (\<open>readFileSync\<close> on it succeeds), and \<open>Broken\<close> is an entry on which \<open>statSync\<close> raises
  (a dangling symbolic link). The tree is finite: symbolic links that lead back into the
  directory are outside the model. An exception of the file system is an \<open>Error\<close> with its
  message; the path that the real message ends with is left out.
\<close>

datatype fsnode = File string | Dir "(string \<times> fsnode) list" | Broken

datatype error = Error (message: string)

definition statError :: error where
  "statError = Error ''ENOENT: no such file or directory''"

fun isDirectory :: "fsnode \<Rightarrow> bool" where
  "isDirectory (Dir es) = True"
| "isDirectory n = False"

fun isBroken :: "fsnode \<Rightarrow> bool" where
  "isBroken Broken = True"
| "isBroken n = False"

text \<open>
  \<open>Array.prototype.sort\<close> with a comparator: a stable sort, here by insertion. The comparator
  returns a negative number, zero or a positive number.
\<close>

fun insertBy :: "('a \<Rightarrow> 'a \<Rightarrow> int) \<Rightarrow> 'a \<Rightarrow> 'a list \<Rightarrow> 'a list" where
  "insertBy cmp x [] = [x]"
| "insertBy cmp x (y # ys) = (if cmp x y \<le> 0 then x # y # ys else y # insertBy cmp x ys)"

definition sortBy :: "('a \<Rightarrow> 'a \<Rightarrow> int) \<Rightarrow> 'a list \<Rightarrow> 'a list" where
  "sortBy cmp xs = foldr (insertBy cmp) xs []"

text \<open>The comparator of \<open>buildFileTree\<close>: directories first, then \<open>a.localeCompare(b)\<close>.
  \<open>localeCompare\<close> depends on the locale of the host, so it is a parameter.\<close>

definition compareItems ::
  "(string \<Rightarrow> string \<Rightarrow> int) \<Rightarrow> string \<times> fsnode \<Rightarrow> string \<times> fsnode \<Rightarrow> int" where
  "compareItems localeCompare a b =
     (let aIsDir = isDirectory (snd a); bIsDir = isDirectory (snd b)
      in if aIsDir \<and> \<not> bIsDir then - 1
         else if \<not> aIsDir \<and> bIsDir then 1
         else localeCompare (fst a) (fst b))"

text \<open>\<open>path.extname\<close> of Node.js (POSIX flavour), translated from its loop, which scans the
  path from its end. The state is \<open>(startDot, startPart, end, matchedSlash, preDotState)\<close>;
  \<open>-1\<close> is the source's "not seen yet".\<close>

record ext_state =
  startDot :: int
  startPart :: int
  endPos :: int
  matchedSlash :: bool
  preDotState :: int

fun extname_scan :: "string \<Rightarrow> nat \<Rightarrow> ext_state \<Rightarrow> ext_state" where
  "extname_scan path 0 st = st"
| "extname_scan path (Suc i) st =
     (let code = path ! i in
      if code = CHR ''/'' then
        (if \<not> matchedSlash st then st\<lparr>startPart := int i + 1\<rparr>
         else extname_scan path i st)
      else
        let st1 = (if endPos st = - 1 then st\<lparr>endPos := int i + 1, matchedSlash := False\<rparr>
                   else st);
            st2 = (if code = CHR ''.'' then
                     (if startDot st1 = - 1 then st1\<lparr>startDot := int i\<rparr>
                      else if preDotState st1 \<noteq> 1 then st1\<lparr>preDotState := 1\<rparr>
                      else st1)
                   else if startDot st1 \<noteq> - 1 then st1\<lparr>preDotState := - 1\<rparr>
                   else st1)
        in extname_scan path i st2)"

definition extname :: "string \<Rightarrow> string" where
  "extname path =
     (let st = extname_scan path (length path)
                 \<lparr>startDot = - 1, startPart = 0, endPos = - 1, matchedSlash = True,
                  preDotState = 0\<rparr>
      in if startDot st = - 1 \<or> endPos st = - 1 \<or> preDotState st = 0
            \<or> (preDotState st = 1 \<and> startDot st = endPos st - 1
                 \<and> startDot st = startPart st + 1)
         then []
         else drop (nat (startDot st)) (take (nat (endPos st)) path))"

text \<open>The extension filter shared by \<open>buildFileTree\<close> and \<open>processDirectory\<close>:
  \<open>!includeExtensions || includeExtensions.map((e) => e.toLowerCase()).includes(ext)\<close>
  with \<open>ext = path.extname(item).toLowerCase()\<close>. An absent option is \<open>None\<close>; an empty
  array is present (and matches nothing).\<close>

definition extensionIncluded :: "caseMapping \<Rightarrow> string list option \<Rightarrow> string \<Rightarrow> bool" where
  "extensionIncluded cm includeExtensions item =
     (let ext = toLowerCase cm (extname item)
      in case includeExtensions of
           None \<Rightarrow> True
         | Some exts \<Rightarrow> ext \<in> set (map (toLowerCase cm) exts))"

section \<open>buildFileTree\<close>

text \<open>
  \<open>buildFileTree\<close> on the node found at \<open>directory\<close>. The comparator of the sort and the loop
  both call \<open>statSync\<close> on the entries, so a broken entry raises; \<open>readdirSync\<close> raises on
  what is not a directory. \<open>forItems\<close> is the \<open>for\<close> loop over \<open>sortedItems\<close>, with
  \<open>structure.children\<close> as the accumulator.
\<close>

function (sequential) buildFileTree ::
    "(string \<Rightarrow> string \<Rightarrow> int) \<Rightarrow> caseMapping \<Rightarrow> fsnode \<Rightarrow> string list \<Rightarrow> string
      \<Rightarrow> string list option \<Rightarrow> error + FileTree"
  and forItems ::
    "(string \<Rightarrow> string \<Rightarrow> int) \<Rightarrow> caseMapping \<Rightarrow> (string \<times> fsnode) list \<Rightarrow> string list
      \<Rightarrow> string list option \<Rightarrow> FileTree list \<Rightarrow> error + FileTree list"
where
  "buildFileTree lc cm (Dir items) excludeDirs repoName includeExtensions =
     (if list_ex (\<lambda>it. isBroken (snd it)) items then Inl statError
      else
        (case forItems lc cm (sortBy (compareItems lc) items) excludeDirs includeExtensions [] of
           Inl e \<Rightarrow> Inl e
         | Inr cs \<Rightarrow> Inr (FileTree repoName TDirectory (Some cs))))"
| "buildFileTree lc cm node excludeDirs repoName includeExtensions = Inl statError"
| "forItems lc cm [] excludeDirs includeExtensions acc = Inr acc"
| "forItems lc cm ((item, Broken) # rest) excludeDirs includeExtensions acc = Inl statError"
| "forItems lc cm ((item, Dir es) # rest) excludeDirs includeExtensions acc =
     (if item \<notin> set excludeDirs then
        (case buildFileTree lc cm (Dir es) excludeDirs item includeExtensions of
           Inl e \<Rightarrow> Inl e
         | Inr childTree \<Rightarrow>
             (if (case children childTree of None \<Rightarrow> False | Some cs \<Rightarrow> length cs > 0)
              then forItems lc cm rest excludeDirs includeExtensions (acc @ [childTree])
              else forItems lc cm rest excludeDirs includeExtensions acc))
      else forItems lc cm rest excludeDirs includeExtensions acc)"
| "forItems lc cm ((item, File content) # rest) excludeDirs includeExtensions acc =
     (if extensionIncluded cm includeExtensions item
      then forItems lc cm rest excludeDirs includeExtensions (acc @ [FileTree item TFile None])
      else forItems lc cm rest excludeDirs includeExtensions acc)"
  by pat_completeness auto
termination
proof -
  let ?sz = "size_list (size_prod (\<lambda>_. 0) (size :: fsnode \<Rightarrow> nat))"
  have ins: "?sz (insertBy cmp x xs) = ?sz (x # xs)" for cmp x xs
    by (induction xs) auto
  have srt: "?sz (sortBy cmp xs) = ?sz xs" for cmp xs
    unfolding sortBy_def by (induction xs) (auto simp: ins)
  show ?thesis
    by (relation "measure (\<lambda>x. case x of
          Inl (lc, cm, node, ed, nm, ie) \<Rightarrow> 2 * size node
        | Inr (lc, cm, items, ed, ie, acc) \<Rightarrow>
            2 * size_list (size_prod (\<lambda>_. 0) size) items + 1)")
      (auto simp: srt)
qed

section \<open>The concatenation walk\<close>

text \<open>\<open>s.replace(pattern, replacement)\<close> with a string pattern: the first occurrence of the
  pattern is replaced, and \<open>$$\<close>, \<open>$&\<close>, \<open>$\<close>-backquote and \<open>$'\<close> in the replacement stand
  for a dollar sign, the match, the text before it and the text after it.\<close>

fun split_first :: "string \<Rightarrow> string \<Rightarrow> (string \<times> string) option" where
  "split_first pat [] = (if pat = [] then Some ([], []) else None)"
| "split_first pat (c # cs) =
     (if prefix pat (c # cs) then Some ([], drop (length pat) (c # cs))
      else map_option (\<lambda>(b, a). (c # b, a)) (split_first pat cs))"

fun getSubstitution :: "string \<Rightarrow> string \<Rightarrow> string \<Rightarrow> string \<Rightarrow> string" where
  "getSubstitution matched preceding following (c # d # r) =
     (if c = CHR ''$'' \<and> d = CHR ''$'' then CHR ''$'' # getSubstitution matched preceding following r
      else if c = CHR ''$'' \<and> d = CHR ''&'' then matched @ getSubstitution matched preceding following r
      else if c = CHR ''$'' \<and> d = CHR 0x60 then preceding @ getSubstitution matched preceding following r
      else if c = CHR ''$'' \<and> d = CHR 0x27 then following @ getSubstitution matched preceding following r
      else c # getSubstitution matched preceding following (d # r))"
| "getSubstitution matched preceding following r = r"

definition replace_str :: "string \<Rightarrow> string \<Rightarrow> string \<Rightarrow> string" where
  "replace_str s pat replacement =
     (case split_first pat s of
        None \<Rightarrow> s
      | Some (preceding, following) \<Rightarrow> preceding @ getSubstitution pat preceding following replacement @ following)"

text \<open>\<open>path.join(directory, item)\<close> for a normalised directory path and an entry name.\<close>

definition joinPath :: "string \<Rightarrow> string \<Rightarrow> string" where
  "joinPath directory item = directory @ ''/'' @ item"

text \<open>The two lines and the contents that \<open>processDirectory\<close> appends for a qualifying file.\<close>

definition fileBlock :: "string \<Rightarrow> string \<Rightarrow> string \<Rightarrow> string \<Rightarrow> string" where
  "fileBlock tempDir repoName fullPath content =
     [newline] @ ''// File: '' @ replace_str fullPath (tempDir @ ''/'') (repoName @ ''/'')
       @ [newline] @ content @ [newline]"

text \<open>The test of \<open>processDirectory\<close> on a file:
  \<open>!excludeFiles.includes(item) && (!includeExtensions || ...includes(ext))\<close>.\<close>

definition fileQualifies ::
  "caseMapping \<Rightarrow> string list \<Rightarrow> string list option \<Rightarrow> string \<Rightarrow> bool" where
  "fileQualifies cm excludeFiles includeExtensions item =
     (item \<notin> set excludeFiles \<and> extensionIncluded cm includeExtensions item)"

text \<open>
  \<open>processDirectory\<close>, the closure inside \<open>mergeRepositoryFiles\<close>: its free variables
  (\<open>tempDir\<close>, \<open>repoName\<close>, the three filters) are parameters, and \<open>mergedContent\<close>, which it
  appends to, is passed in and returned. The loop runs over \<open>readdirSync(directory)\<close> as it
  is returned: there is no sort here.
\<close>

fun processDirectory ::
    "caseMapping \<Rightarrow> string \<Rightarrow> string \<Rightarrow> string list \<Rightarrow> string list \<Rightarrow> string list option
      \<Rightarrow> string \<Rightarrow> fsnode \<Rightarrow> string \<Rightarrow> error + string"
  and processItems ::
    "caseMapping \<Rightarrow> string \<Rightarrow> string \<Rightarrow> string list \<Rightarrow> string list \<Rightarrow> string list option
      \<Rightarrow> string \<Rightarrow> (string \<times> fsnode) list \<Rightarrow> string \<Rightarrow> error + string"
where
  "processDirectory cm tempDir repoName excludeDirs excludeFiles includeExtensions
       directory (Dir items) mergedContent =
     processItems cm tempDir repoName excludeDirs excludeFiles includeExtensions
       directory items mergedContent"
| "processDirectory cm tempDir repoName excludeDirs excludeFiles includeExtensions
       directory (File content) mergedContent = Inl statError"
| "processDirectory cm tempDir repoName excludeDirs excludeFiles includeExtensions
       directory Broken mergedContent = Inl statError"
| "processItems cm tempDir repoName excludeDirs excludeFiles includeExtensions
       directory [] mergedContent = Inr mergedContent"
| "processItems cm tempDir repoName excludeDirs excludeFiles includeExtensions
       directory ((item, Broken) # rest) mergedContent = Inl statError"
| "processItems cm tempDir repoName excludeDirs excludeFiles includeExtensions
       directory ((item, Dir es) # rest) mergedContent =
     (if item \<notin> set excludeDirs then
        (case processDirectory cm tempDir repoName excludeDirs excludeFiles includeExtensions
                (joinPath directory item) (Dir es) mergedContent of
           Inl e \<Rightarrow> Inl e
         | Inr merged \<Rightarrow>
             processItems cm tempDir repoName excludeDirs excludeFiles includeExtensions
               directory rest merged)
      else processItems cm tempDir repoName excludeDirs excludeFiles includeExtensions
             directory rest mergedContent)"
| "processItems cm tempDir repoName excludeDirs excludeFiles includeExtensions
       directory ((item, File content) # rest) mergedContent =
     (if fileQualifies cm excludeFiles includeExtensions item
      then processItems cm tempDir repoName excludeDirs excludeFiles includeExtensions
             directory rest
             (mergedContent @ fileBlock tempDir repoName (joinPath directory item) content)
      else processItems cm tempDir repoName excludeDirs excludeFiles includeExtensions
             directory rest mergedContent)"

section \<open>Repository name\<close>

text \<open>
  \<open>url.match(/\/([^\/]+?)(\.git)?$/)\<close>: the match can only start at the last slash, needs at
  least one character after it, and the lazy group leaves a final \<open>.git\<close> to the optional
  group when something stands before it.
\<close>

fun afterLastSlash :: "string \<Rightarrow> string option" where
  "afterLastSlash [] = None"
| "afterLastSlash (c # cs) =
     (case afterLastSlash cs of
        Some seg \<Rightarrow> Some seg
      | None \<Rightarrow> (if c = CHR ''/'' then Some cs else None))"

definition getRepoNameFromUrl :: "string \<Rightarrow> string" where
  "getRepoNameFromUrl url =
     (case afterLastSlash url of
        None \<Rightarrow> ''repository''
      | Some seg \<Rightarrow>
          (if seg = [] then ''repository''
           else if 4 < length seg \<and> suffix ''.git'' seg then take (length seg - 4) seg
           else seg))"

section \<open>Workspaces\<close>

text \<open>
  The state the program works on: the temporary directories on disk (by path), the paths on
  which \<open>fs.rmSync\<close> and \<open>fs.writeFileSync\<close> raise, the module variable
  \<open>tempDirectories\<close>, the calls of \<open>fs.writeFileSync\<close> that went through (path and data,
  in order), and the lines printed by \<open>console.log\<close> and \<open>console.error\<close> (without colours;
  the spinner is not modelled).
\<close>

record world =
  disk :: "string \<Rightarrow> fsnode option"
  undeletable :: "string \<Rightarrow> bool"
  unwritable :: "string \<Rightarrow> bool"
  tempDirectories :: "string list"
  written :: "(string \<times> string) list"
  console :: "string list"

definition existsSync :: "world \<Rightarrow> string \<Rightarrow> bool" where
  "existsSync w p = (disk w p \<noteq> None)"

text \<open>\<open>fs.rmSync(p, { recursive: true, force: true })\<close>: nothing to do when the path is absent;
  a failed removal raises and is modelled as leaving the directory in place.\<close>

definition rmSync :: "world \<Rightarrow> string \<Rightarrow> error + world" where
  "rmSync w p =
     (if disk w p = None then Inr w
      else if undeletable w p then Inl (Error ''EPERM: operation not permitted'')
      else Inr (w\<lparr>disk := (disk w)(p := None)\<rparr>))"

definition writeFileSync :: "world \<Rightarrow> string \<Rightarrow> string \<Rightarrow> error + world" where
  "writeFileSync w p content =
     (if unwritable w p then Inl (Error ''EACCES: permission denied'')
      else Inr (w\<lparr>written := written w @ [(p, content)]\<rparr>))"

definition consoleLog :: "world \<Rightarrow> string \<Rightarrow> world" where
  "consoleLog w line = w\<lparr>console := console w @ [line]\<rparr>"

text \<open>\<open>cleanup\<close>: the loop over \<open>tempDirectories\<close>, with the \<open>try\<close>/\<open>catch\<close> around \<open>rmSync\<close>
  that ignores the error.\<close>

fun cleanupLoop :: "string list \<Rightarrow> world \<Rightarrow> world" where
  "cleanupLoop [] w = w"
| "cleanupLoop (dir # dirs) w =
     (if existsSync w dir then
        (case rmSync w dir of
           Inl e \<Rightarrow> cleanupLoop dirs w
         | Inr w' \<Rightarrow> cleanupLoop dirs w')
      else cleanupLoop dirs w)"

definition cleanupMessage :: string where
  "cleanupMessage = ''Cleaning up temporary files...''"

definition cleanup :: "world \<Rightarrow> world" where
  "cleanup w = cleanupLoop (tempDirectories w) (consoleLog w cleanupMessage)"

text \<open>The \<open>finally\<close> block of \<open>mergeRepositoryFiles\<close>: here \<open>rmSync\<close> is not guarded, so its
  error leaves the block, and the directory stays registered.\<close>

definition releaseTempDir :: "string \<Rightarrow> world \<Rightarrow> error + world" where
  "releaseTempDir tempDir w =
     (case (if existsSync w tempDir then rmSync w tempDir else Inr w) of
        Inl e \<Rightarrow> Inl e
      | Inr w' \<Rightarrow>
          Inr (w'\<lparr>tempDirectories := filter (\<lambda>dir. dir \<noteq> tempDir) (tempDirectories w')\<rparr>))"

section \<open>mergeRepositoryFiles\<close>

text \<open>What the call reads from outside: the base directory for temporary files, the unique
  suffix (time and random digits), the timestamp of the header, and what \<open>git clone\<close> of a
  URL and an optional branch gives: the error it is rejected with, or the tree it checks out.\<close>

record env =
  tempBaseDir :: string
  uniqueId :: string
  isoDate :: string
  gitClone :: "string \<Rightarrow> string option \<Rightarrow> error + fsnode"

text \<open>A promise settles: it resolves with a value or is rejected with an error.\<close>

datatype 'a outcome = Returned 'a | Raised error

text \<open>\<open>if (branch)\<close>: an absent and an empty branch are both false.\<close>

definition truthy :: "string option \<Rightarrow> bool" where
  "truthy b = (case b of None \<Rightarrow> False | Some s \<Rightarrow> s \<noteq> [])"

definition cloneRepository ::
  "env \<Rightarrow> string \<Rightarrow> string \<Rightarrow> string option \<Rightarrow> world \<Rightarrow> bool \<times> world" where
  "cloneRepository ev githubUrl destination branch w =
     (case gitClone ev githubUrl (if truthy branch then branch else None) of
        Inr tree \<Rightarrow> (True, w\<lparr>disk := (disk w)(destination \<mapsto> tree)\<rparr>)
      | Inl e \<Rightarrow>
          (False,
           consoleLog w
             (if includes_str (message e) ''not found''
                then ''Repository not found or access denied.''
              else if includes_str (message e) ''already exists''
                then ''Destination directory already exists.''
              else if includes_str (message e) ''does not exist''
                then ''Branch '' @ [CHR 0x22]
                       @ (case branch of None \<Rightarrow> ''undefined'' | Some b \<Rightarrow> b)
                       @ [CHR 0x22] @ '' does not exist.''
              else ''Error details: '' @ message e)))"

definition noFilesMessage :: string where
  "noFilesMessage = ''No files found matching the selected criteria.''"

definition mergeHeader :: "string \<Rightarrow> string option \<Rightarrow> string \<Rightarrow> string \<Rightarrow> string" where
  "mergeHeader githubUrl branch isoString tree =
     ''// Source: '' @ githubUrl
       @ (if truthy branch then '' (branch: '' @ the branch @ '')'' else [])
       @ [newline]
       @ ''// Merged on: '' @ isoString @ [newline, newline]
       @ ''/*'' @ [newline]
       @ tree
       @ ''*/'' @ [newline, newline]"

record Options =
  excludeDirs :: "string list option"
  excludeFiles :: "string list option"
  outputPath :: "string option"
  includeExtensions :: "string list option"
  branch :: "string option"

definition defaultExcludeDirs :: "string list" where
  "defaultExcludeDirs = [''node_modules'', ''.git'', ''dist'', ''build'', ''.github'', ''.vscode'']"

definition defaultExcludeFiles :: "string list" where
  "defaultExcludeFiles = [''.env'', ''.gitignore'', ''package-lock.json'', ''yarn.lock'', ''.DS_Store'']"

definition orDefault :: "'a option \<Rightarrow> 'a \<Rightarrow> 'a" where
  "orDefault v d = (case v of None \<Rightarrow> d | Some x \<Rightarrow> x)"

text \<open>\<open>!fileTree.children || fileTree.children.length === 0\<close>.\<close>

definition treeIsEmpty :: "FileTree \<Rightarrow> bool" where
  "treeIsEmpty fileTree =
     (case children fileTree of None \<Rightarrow> True | Some cs \<Rightarrow> length cs = 0)"

text \<open>The \<open>try\<close> block with its \<open>catch\<close>: the value the function is about to return, and the
  state. Every exception of the block ends in \<open>console.error("Error:", message)\<close> and
  \<open>false\<close>.\<close>

definition mergeTry ::
  "env \<Rightarrow> (string \<Rightarrow> string \<Rightarrow> int) \<Rightarrow> caseMapping \<Rightarrow> string \<Rightarrow> string \<Rightarrow> string
    \<Rightarrow> string list \<Rightarrow> string list \<Rightarrow> string \<Rightarrow> string list option \<Rightarrow> string option \<Rightarrow> world
    \<Rightarrow> bool \<times> world" where
  "mergeTry ev lc cm githubUrl tempDir repoName exDirs exFiles outPath inclExts br w =
     (let (cloneSuccess, w1) = cloneRepository ev githubUrl tempDir br w in
      if \<not> cloneSuccess then (False, w1)
      else
        (case (case disk w1 tempDir of
                 None \<Rightarrow> Inl statError
               | Some node \<Rightarrow> buildFileTree lc cm node exDirs repoName inclExts) of
           Inl e \<Rightarrow> (False, consoleLog w1 (''Error: '' @ message e))
         | Inr fileTree \<Rightarrow>
             (if treeIsEmpty fileTree
              then (False, consoleLog w1 noFilesMessage)
              else
                (let mergedContent =
                       mergeHeader githubUrl br (isoDate ev) (treeString repoName fileTree)
                 in case (case disk w1 tempDir of
                            None \<Rightarrow> Inl statError
                          | Some node \<Rightarrow>
                              processDirectory cm tempDir repoName exDirs exFiles inclExts
                                tempDir node mergedContent) of
                      Inl e \<Rightarrow> (False, consoleLog w1 (''Error: '' @ message e))
                    | Inr merged \<Rightarrow>
                        (case writeFileSync w1 outPath merged of
                           Inl e \<Rightarrow> (False, consoleLog w1 (''Error: '' @ message e))
                         | Inr w2 \<Rightarrow> (True, w2))))))"

definition mergeRepositoryFiles ::
  "env \<Rightarrow> (string \<Rightarrow> string \<Rightarrow> int) \<Rightarrow> caseMapping \<Rightarrow> string \<Rightarrow> Options \<Rightarrow> world
    \<Rightarrow> bool outcome \<times> world" where
  "mergeRepositoryFiles ev lc cm githubUrl options w =
     (let exDirs = orDefault (excludeDirs options) defaultExcludeDirs;
          exFiles = orDefault (excludeFiles options) defaultExcludeFiles;
          outPath = orDefault (outputPath options) ''merged-output.txt'';
          tempDir = joinPath (tempBaseDir ev) (''repo-'' @ uniqueId ev);
          w0 = w\<lparr>tempDirectories := tempDirectories w @ [tempDir]\<rparr>;
          repoName = getRepoNameFromUrl githubUrl;
          (result, w1) =
            mergeTry ev lc cm githubUrl tempDir repoName exDirs exFiles outPath
              (includeExtensions options) (branch options) w0
      in case releaseTempDir tempDir w1 of
           Inl e \<Rightarrow> (Raised e, w1)
         | Inr w2 \<Rightarrow> (Returned result, w2))"

section \<open>Branch discovery\<close>

text \<open>\<open>s.trim()\<close>, on the ASCII white space and line ends (what git prints).\<close>

definition isSpace :: "char \<Rightarrow> bool" where
  "isSpace c = (c \<in> set [CHR 0x09, CHR 0x0A, CHR 0x0B, CHR 0x0C, CHR 0x0D, CHR 0x20])"

definition trim :: "string \<Rightarrow> string" where
  "trim s = rev (dropWhile isSpace (rev (dropWhile isSpace s)))"

text \<open>
  \<open>line.match(/refs\/heads\/(.+)$/)\<close>: the leftmost place where \<open>refs/heads/\<close> stands and the
  rest of the line, which must not be empty, is one run of the regular expression's dot: no
  line feed, carriage return, U+2028 or U+2029 in it. The result is that rest.
\<close>

definition dotPlus :: "string \<Rightarrow> bool" where
  "dotPlus r =
     (r \<noteq> [] \<and> CHR 0x0A \<notin> set r \<and> CHR 0x0D \<notin> set r
      \<and> \<not> includes_str r [CHR 0xE2, CHR 0x80, CHR 0xA8]
      \<and> \<not> includes_str r [CHR 0xE2, CHR 0x80, CHR 0xA9])"

fun matchHeads :: "string \<Rightarrow> string option" where
  "matchHeads [] = None"
| "matchHeads (c # cs) =
     (if prefix ''refs/heads/'' (c # cs) \<and> dotPlus (drop 11 (c # cs))
      then Some (drop 11 (c # cs))
      else matchHeads cs)"

text \<open>The chain on \<open>stdout\<close> of \<open>git ls-remote --heads\<close>: split, drop blank lines, match,
  drop the lines that did not match, sort (the default \<open>sort\<close>, by code units).\<close>

definition parseHeads :: "string \<Rightarrow> string list" where
  "parseHeads stdout =
     sortStrings (map the (filter (\<lambda>b. b \<noteq> None)
       (map matchHeads (filter (\<lambda>line. trim line \<noteq> []) (split_at newline stdout)))))"

definition fallbackBranch :: "string \<Rightarrow> string option" where
  "fallbackBranch line =
     (let trimmed = trim line
      in if prefix ''origin/'' trimmed \<and> \<not> includes_str trimmed ''->''
         then Some (replace_str trimmed ''origin/'' [])
         else None)"

definition parseFallback :: "string \<Rightarrow> string list" where
  "parseFallback branchOutput =
     sortStrings (map the (filter (\<lambda>b. b \<noteq> None \<and> b \<noteq> Some ''HEAD'')
       (map fallbackBranch (filter (\<lambda>line. trim line \<noteq> []) (split_at newline branchOutput)))))"

text \<open>What git answers: \<open>git ls-remote --heads url\<close>, \<open>git clone --bare url dir\<close> and
  \<open>git branch -r\<close> in that directory; each is rejected with an \<open>Error\<close> or gives its output.\<close>

record remote =
  lsRemoteHeads :: "string \<Rightarrow> error + string"
  cloneBare :: "string \<Rightarrow> string \<Rightarrow> error + unit"
  branchRemote :: "string \<Rightarrow> error + string"

definition defaultBranches :: "string list" where
  "defaultBranches = [''main'', ''master'']"

text \<open>\<open>getAvailableBranches\<close> of \<open>src/index.ts\<close>; \<open>None\<close> is the \<open>null\<close> it returns.\<close>

definition getAvailableBranches :: "remote \<Rightarrow> string \<Rightarrow> string \<Rightarrow> string list option" where
  "getAvailableBranches git githubUrl tempDir =
     (case lsRemoteHeads git githubUrl of
        Inl e \<Rightarrow>
          (if includes_str (message e) ''not found'' then None else Some defaultBranches)
      | Inr stdout \<Rightarrow>
          (let branches = parseHeads stdout
           in if length branches = 0 then
                (case cloneBare git githubUrl tempDir of
                   Inl e \<Rightarrow> None
                 | Inr u \<Rightarrow>
                     (case branchRemote git tempDir of
                        Inl e \<Rightarrow> None
                      | Inr branchOutput \<Rightarrow>
                          (let fallbackBranches = parseFallback branchOutput
                           in if length fallbackBranches > 0 then Some fallbackBranches
                              else Some defaultBranches)))
              else Some branches))"

text \<open>The older copy of the function (the second source file), which has neither the inner
  \<open>try\<close> nor the test on the message: every error ends in the default list.\<close>

definition getAvailableBranches_old :: "remote \<Rightarrow> string \<Rightarrow> string \<Rightarrow> string list" where
  "getAvailableBranches_old git githubUrl tempDir =
     (case lsRemoteHeads git githubUrl of
        Inl e \<Rightarrow> defaultBranches
      | Inr stdout \<Rightarrow>
          (let branches = parseHeads stdout
           in if length branches = 0 then
                (case cloneBare git githubUrl tempDir of
                   Inl e \<Rightarrow> defaultBranches
                 | Inr u \<Rightarrow>
                     (case branchRemote git tempDir of
                        Inl e \<Rightarrow> defaultBranches
                      | Inr branchOutput \<Rightarrow>
                          (let fallbackBranches = parseFallback branchOutput
                           in if length fallbackBranches > 0 then fallbackBranches
                              else defaultBranches)))
              else branches))"

section \<open>Example inputs\<close>

text \<open>Three remotes: one whose listing of heads is rejected with a "not found" message, one
  whose listing is rejected for another reason, and one that lists no head and then rejects
  the bare clone.\<close>

definition remoteNotFound :: remote where
  "remoteNotFound =
     \<lparr>lsRemoteHeads = (\<lambda>url. Inl (Error ''fatal: repository not found'')),
      cloneBare = (\<lambda>url dir. Inr ()),
      branchRemote = (\<lambda>dir. Inr [])\<rparr>"

definition remoteTimeout :: remote where
  "remoteTimeout =
     \<lparr>lsRemoteHeads = (\<lambda>url. Inl (Error ''fatal: unable to access: timed out'')),
      cloneBare = (\<lambda>url dir. Inr ()),
      branchRemote = (\<lambda>dir. Inr [])\<rparr>"

definition remoteCloneFails :: remote where
  "remoteCloneFails =
     \<lparr>lsRemoteHeads = (\<lambda>url. Inr []),
      cloneBare = (\<lambda>url dir. Inl (Error ''fatal: could not read from remote'')),
      branchRemote = (\<lambda>dir. Inr [])\<rparr>"



section \<open>The diagram, line by line\<close>

text \<open>
  The specification's \<open>renderTree\<close>, as the list of its lines: one line for each node, made
  of the prefix it inherits, the tee for a sibling that is not the last or the elbow for the
  last, and the name; the children of a node extend its prefix by three blanks when the node
  was the last sibling, and by the vertical bar and two blanks otherwise.
\<close>

fun renderTreeLines :: "FileTree \<Rightarrow> string \<Rightarrow> bool \<Rightarrow> string list"
  and renderChildLines :: "FileTree list \<Rightarrow> string \<Rightarrow> string list"
where
  "renderTreeLines (FileTree nm ty ch) pre isLast =
     (pre @ (if isLast then elbow else tee) @ nm)
       # (case ch of
            None \<Rightarrow> []
          | Some cs \<Rightarrow> renderChildLines cs (pre @ (if isLast then blank3 else pipe)))"
| "renderChildLines [] pre = []"
| "renderChildLines (c # cs) pre = renderTreeLines c pre (cs = []) @ renderChildLines cs pre"

fun nodeCount :: "FileTree \<Rightarrow> nat"
  and nodesCount :: "FileTree list \<Rightarrow> nat"
where
  "nodeCount (FileTree nm ty ch) = 1 + (case ch of None \<Rightarrow> 0 | Some cs \<Rightarrow> nodesCount cs)"
| "nodesCount [] = 0"
| "nodesCount (c # cs) = nodeCount c + nodesCount cs"

definition unlines :: "string list \<Rightarrow> string" where
  "unlines ls = concat (map (\<lambda>l. l @ [newline]) ls)"

text \<open>A tree of a root and two files.\<close>

definition twoFiles :: FileTree where
  "twoFiles = FileTree ''repo'' TDirectory
     (Some [FileTree ''a.ts'' TFile None, FileTree ''b.ts'' TFile None])"

section \<open>Shapes of trees and directories\<close>

text \<open>The children of a node, none for a file.\<close>

fun childList :: "FileTree \<Rightarrow> FileTree list" where
  "childList (FileTree nm ty ch) = (case ch of None \<Rightarrow> [] | Some cs \<Rightarrow> cs)"

text \<open>No directory node of the tree is empty: a node without \<open>children\<close> is a file, and a
  node with \<open>children\<close> is a directory that has at least one child, all of them of this
  kind again.\<close>

fun dirsNonEmpty :: "FileTree \<Rightarrow> bool" where
  "dirsNonEmpty (FileTree nm ty ch) =
     (case ch of
        None \<Rightarrow> ty = TFile
      | Some cs \<Rightarrow> ty = TDirectory \<and> cs \<noteq> [] \<and> (\<forall>c \<in> set cs. dirsNonEmpty c))"

text \<open>The node is a file or has a file below it.\<close>

fun hasFile :: "FileTree \<Rightarrow> bool" where
  "hasFile (FileTree nm ty ch) =
     (case ch of
        None \<Rightarrow> ty = TFile
      | Some cs \<Rightarrow> (\<exists>c \<in> set cs. hasFile c))"

text \<open>Every file of the tree passes the extension filter.\<close>

fun filesPass :: "caseMapping \<Rightarrow> string list option \<Rightarrow> FileTree \<Rightarrow> bool" where
  "filesPass cm ie (FileTree nm ty ch) =
     (case ch of
        None \<Rightarrow> extensionIncluded cm ie nm
      | Some cs \<Rightarrow> (\<forall>c \<in> set cs. filesPass cm ie c))"

text \<open>
  A directory that both walks can read to the end: no entry is broken, in it and in every
  subdirectory that is not excluded.
\<close>

fun readable :: "string list \<Rightarrow> fsnode \<Rightarrow> bool"
  and readableItems :: "string list \<Rightarrow> (string \<times> fsnode) list \<Rightarrow> bool"
where
  "readable xd (Dir items) = readableItems xd items"
| "readable xd (File content) = False"
| "readable xd Broken = False"
| "readableItems xd [] = True"
| "readableItems xd ((item, Broken) # rest) = False"
| "readableItems xd ((item, File content) # rest) = readableItems xd rest"
| "readableItems xd ((item, Dir es) # rest) =
     ((item \<in> set xd \<or> readable xd (Dir es)) \<and> readableItems xd rest)"

text \<open>A comparison of names by their bytes, for the examples.\<close>

definition lcBytes :: "string \<Rightarrow> string \<Rightarrow> int" where
  "lcBytes a b = (if a < b then - 1 else if a = b then 0 else 1)"

definition sampleRepo :: fsnode where
  "sampleRepo = Dir [(''a.ts'', File ''A''), (''docs'', Dir [(''b.md'', File ''B'')]),
                     (''empty'', Dir []), (''src'', Dir [(''x.TS'', File ''X'')])]"

text \<open>One entry of a readable directory.\<close>

fun entryOk :: "string list \<Rightarrow> string \<times> fsnode \<Rightarrow> bool" where
  "entryOk xd (item, Broken) = False"
| "entryOk xd (item, File content) = True"
| "entryOk xd (item, Dir es) = (item \<in> set xd \<or> readable xd (Dir es))"

section \<open>The files a walk reaches\<close>

text \<open>
  The files below a directory, depth-first and in the order of the listings, leaving out the
  excluded directories: full path, name and contents of each. No file filter is applied
  here.
\<close>

fun walkFiles :: "string list \<Rightarrow> string \<Rightarrow> fsnode \<Rightarrow> (string \<times> string \<times> string) list"
  and walkItems ::
    "string list \<Rightarrow> string \<Rightarrow> (string \<times> fsnode) list \<Rightarrow> (string \<times> string \<times> string) list"
where
  "walkFiles xd dir (Dir items) = walkItems xd dir items"
| "walkFiles xd dir (File content) = []"
| "walkFiles xd dir Broken = []"
| "walkItems xd dir [] = []"
| "walkItems xd dir ((item, Broken) # rest) = walkItems xd dir rest"
| "walkItems xd dir ((item, File content) # rest) =
     (joinPath dir item, item, content) # walkItems xd dir rest"
| "walkItems xd dir ((item, Dir es) # rest) =
     (if item \<in> set xd then [] else walkFiles xd (joinPath dir item) (Dir es))
       @ walkItems xd dir rest"

text \<open>The text appended for a sequence of files.\<close>

definition blocks :: "string \<Rightarrow> string \<Rightarrow> (string \<times> string \<times> string) list \<Rightarrow> string" where
  "blocks tempDir repoName fs =
     concat (map (\<lambda>(fullPath, item, content). fileBlock tempDir repoName fullPath content) fs)"

text \<open>
  The file predicate in the words of the specification: the name is not excluded, and the
  extension filter is absent or has a member equal to the file's extension (dot included)
  when both are put in lower case.
\<close>

definition qualifies ::
  "caseMapping \<Rightarrow> string list \<Rightarrow> string list option \<Rightarrow> string \<Rightarrow> bool" where
  "qualifies cm xf ie item =
     (item \<notin> set xf
      \<and> (case ie of
           None \<Rightarrow> True
         | Some exts \<Rightarrow>
             (\<exists>e \<in> set exts. toLowerCase cm e = toLowerCase cm (extname item))))"

text \<open>A directory with an upper-case extension, a file excluded by name, a file of another
  extension and \<open>secrets.env\<close>.\<close>

definition mixedDir :: fsnode where
  "mixedDir = Dir [(''X.TS'', File ''x''), (''a.ts'', File ''a''), (''notes.md'', File ''n''),
                   (''secrets.env'', File ''s'')]"

section \<open>The order of the tree\<close>

text \<open>The files of a tree in the order of the tree, each with the path it has when the node
  stands at \<open>path\<close>, and its name.\<close>

fun treeFiles :: "string \<Rightarrow> FileTree \<Rightarrow> (string \<times> string) list"
  and childFiles :: "string \<Rightarrow> FileTree list \<Rightarrow> (string \<times> string) list"
where
  "treeFiles path (FileTree nm ty ch) =
     (case ch of None \<Rightarrow> [(path, nm)] | Some cs \<Rightarrow> childFiles path cs)"
| "childFiles dir [] = []"
| "childFiles dir (c # cs) = treeFiles (joinPath dir (name c)) c @ childFiles dir cs"

text \<open>
  Every listing that the walks read is already in the order of \<open>buildFileTree\<close>: its sort
  leaves the listing as it is, in the directory and in every subdirectory not excluded.
\<close>

fun canonical :: "(string \<Rightarrow> string \<Rightarrow> int) \<Rightarrow> string list \<Rightarrow> fsnode \<Rightarrow> bool"
  and canonicalItems ::
    "(string \<Rightarrow> string \<Rightarrow> int) \<Rightarrow> string list \<Rightarrow> (string \<times> fsnode) list \<Rightarrow> bool"
where
  "canonical lc xd (Dir items) =
     (sortBy (compareItems lc) items = items \<and> canonicalItems lc xd items)"
| "canonical lc xd (File content) = True"
| "canonical lc xd Broken = True"
| "canonicalItems lc xd [] = True"
| "canonicalItems lc xd ((item, Dir es) # rest) =
     ((item \<in> set xd \<or> canonical lc xd (Dir es)) \<and> canonicalItems lc xd rest)"
| "canonicalItems lc xd ((item, File content) # rest) = canonicalItems lc xd rest"
| "canonicalItems lc xd ((item, Broken) # rest) = canonicalItems lc xd rest"

definition pathName :: "string \<times> string \<times> string \<Rightarrow> string \<times> string" where
  "pathName f = (fst f, fst (snd f))"

text \<open>A directory listed by name, the file before the subdirectory, and the same directory
  listed with the subdirectory first.\<close>

definition fileFirst :: fsnode where
  "fileFirst = Dir [(''a.ts'', File ''A''), (''src'', Dir [(''x.ts'', File ''X'')])]"

definition dirFirst :: fsnode where
  "dirFirst = Dir [(''src'', Dir [(''x.ts'', File ''X'')]), (''a.ts'', File ''A'')]"

text \<open>A directory whose listing by name is also the order of the tree.\<close>

definition libFirst :: fsnode where
  "libFirst = Dir [(''lib'', Dir [(''x.ts'', File ''X'')]), (''main.ts'', File ''M'')]"

section \<open>Example states\<close>

text \<open>A state with one registered temporary directory, on disk and not removable.\<close>

definition lockedWorld :: world where
  "lockedWorld =
     \<lparr>disk = [''/tmp/github-merger/repo-1'' \<mapsto> Dir []],
      undeletable = (\<lambda>p. p = ''/tmp/github-merger/repo-1''),
      unwritable = (\<lambda>p. False),
      tempDirectories = [''/tmp/github-merger/repo-1''],
      written = [],
      console = []\<rparr>"

text \<open>A run whose filter leaves nothing: the clone has Markdown files only, and only
  \<open>.ts\<close> is included.\<close>

definition mdOnly :: fsnode where
  "mdOnly = Dir [(''README.md'', File ''hello''), (''docs'', Dir [(''b.md'', File ''B'')])]"

definition emptyEnv :: env where
  "emptyEnv =
     \<lparr>tempBaseDir = ''/tmp/github-merger'', uniqueId = ''1'',
      isoDate = ''2025-01-01T00:00:00.000Z'',
      gitClone = (\<lambda>url br. Inr mdOnly)\<rparr>"

definition tsOnly :: Options where
  "tsOnly = \<lparr>excludeDirs = None, excludeFiles = None, outputPath = None,
             includeExtensions = Some [''.ts''], branch = None\<rparr>"

definition freshWorld :: world where
  "freshWorld =
     \<lparr>disk = Map.empty, undeletable = (\<lambda>p. False), unwritable = (\<lambda>p. False),
      tempDirectories = [], written = [], console = []\<rparr>"

text \<open>A state with nothing registered, in which the temporary directory of the run below
  cannot be removed once it is there.\<close>

definition busyWorld :: world where
  "busyWorld =
     \<lparr>disk = Map.empty, undeletable = (\<lambda>p. p = ''/tmp/github-merger/repo-2''),
      unwritable = (\<lambda>p. False), tempDirectories = [], written = [], console = []\<rparr>"

text \<open>A run that finds two \<open>.ts\<close> files.\<close>

definition tsEnv :: env where
  "tsEnv =
     \<lparr>tempBaseDir = ''/tmp/github-merger'', uniqueId = ''2'',
      isoDate = ''2025-01-01T00:00:00.000Z'',
      gitClone = (\<lambda>url br. Inr fileFirst)\<rparr>"

section \<open>Branch discovery: properties\<close>

lemma includes_str_sublist: "includes_str s t \<longleftrightarrow> sublist t s"
  by (induction s) (auto simp: sublist_Cons_right)

text \<open>
  C4. When \<open>git ls-remote --heads\<close> is rejected, \<open>getAvailableBranches\<close> returns \<open>null\<close> if
  the message of the error contains \<open>not found\<close>, and the default list \<open>["main", "master"]\<close>
  for every other message.
\<close>

theorem ls_remote_error_classified:
  assumes "lsRemoteHeads git githubUrl = Inl e"
  shows "getAvailableBranches git githubUrl tempDir =
           (if sublist ''not found'' (message e) then None else Some [''main'', ''master''])"
  using assms by (simp add: getAvailableBranches_def includes_str_sublist defaultBranches_def)

theorem ls_remote_error_classified_witness:
  "getAvailableBranches remoteNotFound ''https://github.com/u/r'' ''/tmp/b'' = None
   \<and> getAvailableBranches remoteTimeout ''https://github.com/u/r'' ''/tmp/b''
       = Some [''main'', ''master'']"
proof -
  have a: "lsRemoteHeads remoteNotFound ''https://github.com/u/r''
             = Inl (Error ''fatal: repository not found'')"
    by (simp add: remoteNotFound_def)
  have b: "lsRemoteHeads remoteTimeout ''https://github.com/u/r''
             = Inl (Error ''fatal: unable to access: timed out'')"
    by (simp add: remoteTimeout_def)
  have c: "sublist ''not found'' ''fatal: repository not found''"
    by (simp add: includes_str_sublist [symmetric])
  have d: "\<not> sublist ''not found'' ''fatal: unable to access: timed out''"
    by (simp add: includes_str_sublist [symmetric])
  show ?thesis
    using ls_remote_error_classified [OF a, of "''/tmp/b''"]
      ls_remote_error_classified [OF b, of "''/tmp/b''"] c d
    by simp
qed

lemma parseHeads_empty: "parseHeads [] = []"
  by (simp add: parseHeads_def sortStrings_def trim_def)

text \<open>
  C3, as the claim states it, fails on \<open>src/index.ts\<close>: with no head listed and the bare clone
  rejected, the inner \<open>catch\<close> returns \<open>null\<close>, not the default list.
\<close>

theorem fallback_failure_counterexample:
  "getAvailableBranches remoteCloneFails ''https://github.com/u/r'' ''/tmp/b'' = None"
  by (simp add: getAvailableBranches_def remoteCloneFails_def parseHeads_empty)

text \<open>
  C3, amended. When the listing of heads succeeds with no name, \<open>getAvailableBranches\<close>
  returns \<open>null\<close> if the bare clone or the listing of its branches is rejected; the default
  list \<open>["main", "master"]\<close> is returned only when both run and give no name, and the names
  of the fallback otherwise.
\<close>

theorem fallback_failure_returns_null:
  assumes "lsRemoteHeads git githubUrl = Inr out" and "parseHeads out = []"
  shows "getAvailableBranches git githubUrl tempDir =
           (if isl (cloneBare git githubUrl tempDir) \<or> isl (branchRemote git tempDir) then None
            else if parseFallback (projr (branchRemote git tempDir)) = []
              then Some [''main'', ''master'']
            else Some (parseFallback (projr (branchRemote git tempDir))))"
  using assms
  by (auto simp: getAvailableBranches_def defaultBranches_def split: sum.splits)

theorem fallback_failure_returns_null_witness:
  "lsRemoteHeads remoteCloneFails ''https://github.com/u/r'' = Inr []
   \<and> parseHeads [] = []
   \<and> getAvailableBranches remoteCloneFails ''https://github.com/u/r'' ''/tmp/b'' = None"
proof -
  have a: "lsRemoteHeads remoteCloneFails ''https://github.com/u/r'' = Inr []"
    by (simp add: remoteCloneFails_def)
  have c: "isl (cloneBare remoteCloneFails ''https://github.com/u/r'' ''/tmp/b'')"
    by (simp add: remoteCloneFails_def)
  show ?thesis
    using fallback_failure_returns_null [OF a parseHeads_empty, of "''/tmp/b''"] a c
    by (simp add: parseHeads_empty)
qed

text \<open>The older copy of the function does return the default list there.\<close>

lemma old_fallback_failure_returns_defaults:
  assumes "lsRemoteHeads git githubUrl = Inr out" and "parseHeads out = []"
    and "isl (cloneBare git githubUrl tempDir) \<or> isl (branchRemote git tempDir)"
  shows "getAvailableBranches_old git githubUrl tempDir = [''main'', ''master'']"
  using assms
  by (auto simp: getAvailableBranches_old_def defaultBranches_def split: sum.splits)

subsection \<open>The names of tier 1\<close>




text \<open>What a match extracts: the rest of the line after \<open>refs/heads/\<close>.\<close>

lemma matchHeads_shape:
  "matchHeads l = Some n \<Longrightarrow> \<exists>p. l = p @ ''refs/heads/'' @ n \<and> dotPlus n"
proof (induction l)
  case Nil
  then show ?case by simp
next
  case (Cons c cs)
  show ?case
  proof (cases "prefix ''refs/heads/'' (c # cs) \<and> dotPlus (drop 11 (c # cs))")
    case True
    with Cons.prems have n: "n = drop 11 (c # cs)" by simp
    from True obtain r where r: "c # cs = ''refs/heads/'' @ r" by (auto simp: prefix_def)
    then have "drop 11 (c # cs) = r" by simp
    with n r True have "c # cs = [] @ ''refs/heads/'' @ n \<and> dotPlus n" by simp
    then show ?thesis by blast
  next
    case False
    with Cons.prems have "matchHeads cs = Some n" by (simp split: if_splits)
    with Cons.IH obtain p where "cs = p @ ''refs/heads/'' @ n \<and> dotPlus n" by blast
    then have "c # cs = (c # p) @ ''refs/heads/'' @ n \<and> dotPlus n" by simp
    then show ?thesis by blast
  qed
qed





section \<open>The tree diagram: properties\<close>

lemma unlines_append: "unlines (xs @ ys) = unlines xs @ unlines ys"
  by (simp add: unlines_def)

lemma generate_lines:
  "generateTreeString t pre isLast = unlines (renderTreeLines t pre isLast)"
  "index + length cs = len \<Longrightarrow>
     forEachChild cs childPrefix index len = unlines (renderChildLines cs childPrefix)"
proof (induction t pre isLast and cs childPrefix index len
    rule: generateTreeString_forEachChild.induct)
  case (1 nm ty ch pre isLast)
  then show ?case by (cases ch) (simp_all add: unlines_def)
next
  case (2 childPrefix index len)
  then show ?case by (simp add: unlines_def)
next
  case (3 child rest childPrefix index len)
  from "3.prems" have last: "(index = len - 1) = (rest = [])" by auto
  from "3.prems" have "Suc index + length rest = len" by simp
  with "3.IH" last show ?case by (simp add: unlines_append)
qed

lemma lines_count:
  "length (renderTreeLines t pre isLast) = nodeCount t"
  "length (renderChildLines cs childPrefix) = nodesCount cs"
  by (induction t pre isLast and cs childPrefix rule: renderTreeLines_renderChildLines.induct)
    (auto split: option.splits)

text \<open>
  \<open>generateTreeString\<close> itself is the renderer the specification describes: one line for
  every node of the tree it is given, with the markers and the indentation of \<open>renderTree\<close>.
\<close>

lemma generateTreeString_one_line_per_node:
  "generateTreeString t pre isLast = unlines (renderTreeLines t pre isLast)
   \<and> length (renderTreeLines t pre isLast) = nodeCount t"
  by (simp add: generate_lines lines_count)

text \<open>
  C6. The diagram of the header is not that rendering: \<open>split("\n").slice(2)\<close> drops the
  line of the root, which \<open>repoName + "/\n"\<close> replaces, and also the line after it, the one
  of the first child. For a root with the files \<open>a.ts\<close> and \<open>b.ts\<close>, three nodes, the
  diagram has two lines, and none for \<open>a.ts\<close>.
\<close>

theorem treeString_drops_first_child:
  "nodeCount twoFiles = 3
   \<and> generateTreeString twoFiles [] True
       = elbow @ ''repo'' @ [newline]
         @ blank3 @ tee @ ''a.ts'' @ [newline]
         @ blank3 @ elbow @ ''b.ts'' @ [newline]
   \<and> treeString ''repo'' twoFiles
       = ''repo/'' @ [newline] @ blank3 @ elbow @ ''b.ts'' @ [newline]"
  by (simp add: twoFiles_def treeString_def newline_def blank3_def elbow_def tee_def pipe_def)

section \<open>buildFileTree: properties\<close>

lemma dirsNonEmpty_hasFile: "dirsNonEmpty t \<Longrightarrow> hasFile t"
proof (induction t rule: dirsNonEmpty.induct)
  case (1 nm ty ch)
  show ?case
  proof (cases ch)
    case None
    with "1.prems" show ?thesis by simp
  next
    case (Some cs)
    with "1.prems" have ne: "cs \<noteq> []" and all: "\<forall>c \<in> set cs. dirsNonEmpty c" by simp_all
    define c where "c = hd cs"
    from ne have c: "c \<in> set cs" by (simp add: c_def)
    with all have "dirsNonEmpty c" by simp
    with "1.IH" [OF Some c] have "hasFile c" .
    with c have "\<exists>c \<in> set cs. hasFile c" ..
    with Some show ?thesis by simp
  qed
qed

lemma build_shape:
  "buildFileTree lc cm node xd nm ie = Inr t
     \<Longrightarrow> \<exists>cs. t = FileTree nm TDirectory (Some cs) \<and> (\<forall>c \<in> set cs. dirsNonEmpty c \<and> filesPass cm ie c)"
  "forItems lc cm items xd ie acc = Inr cs
     \<Longrightarrow> (\<forall>c \<in> set acc. dirsNonEmpty c \<and> filesPass cm ie c)
     \<Longrightarrow> (\<forall>c \<in> set cs. dirsNonEmpty c \<and> filesPass cm ie c)"
proof (induction lc cm node xd nm ie and lc cm items xd ie acc arbitrary: t and cs
    rule: buildFileTree_forItems.induct)
  case (1 lc cm items excludeDirs repoName includeExtensions)
  from "1.prems" have nb: "\<not> list_ex (\<lambda>it. isBroken (snd it)) items"
    by (simp split: if_splits)
  with "1.prems" obtain cs where
    f: "forItems lc cm (sortBy (compareItems lc) items) excludeDirs includeExtensions [] = Inr cs"
    and t: "t = FileTree repoName TDirectory (Some cs)"
    by (cases "forItems lc cm (sortBy (compareItems lc) items) excludeDirs includeExtensions []")
      simp_all
  from "1.IH" [OF nb f] have "\<forall>c \<in> set cs. dirsNonEmpty c \<and> filesPass cm includeExtensions c" by simp
  with t show ?case by simp
next
  case (5 lc cm item es rest excludeDirs includeExtensions acc)
  show ?case
  proof (cases "item \<in> set excludeDirs")
    case True
    then have ex: "\<not> item \<notin> set excludeDirs" by simp
    from "5.prems"(1) True
    have "forItems lc cm rest excludeDirs includeExtensions acc = Inr cs" by simp
    from "5.IH"(4) [OF ex this "5.prems"(2)] show ?thesis .
  next
    case False
    show ?thesis
    proof (cases "buildFileTree lc cm (Dir es) excludeDirs item includeExtensions")
      case (Inl e)
      with False "5.prems" show ?thesis by (simp del: buildFileTree.simps)
    next
      case (Inr childTree)
      from "5.IH"(1) [OF False Inr] obtain ccs where
        ct: "childTree = FileTree item TDirectory (Some ccs)" and
        cc: "\<forall>c \<in> set ccs. dirsNonEmpty c \<and> filesPass cm includeExtensions c" by blast
      show ?thesis
      proof (cases "ccs = []")
        case True
        with ct have no: "\<not> (case children childTree of None \<Rightarrow> False | Some cs \<Rightarrow> length cs > 0)" by simp
        from "5.prems"(1) False Inr no
        have "forItems lc cm rest excludeDirs includeExtensions acc = Inr cs"
          by (simp del: buildFileTree.simps)
        from "5.IH"(3) [OF False Inr no this "5.prems"(2)] show ?thesis .
      next
        case False
        note ne = this
        with ct have yes: "(case children childTree of None \<Rightarrow> False | Some cs \<Rightarrow> length cs > 0)" by simp
        from ct cc ne have "dirsNonEmpty childTree \<and> filesPass cm includeExtensions childTree"
          by simp
        with "5.prems"(2) have
          acc': "\<forall>c \<in> set (acc @ [childTree]). dirsNonEmpty c \<and> filesPass cm includeExtensions c"
          by simp
        from "5.prems"(1) \<open>item \<notin> set excludeDirs\<close> Inr yes
        have "forItems lc cm rest excludeDirs includeExtensions (acc @ [childTree]) = Inr cs"
          by (simp del: buildFileTree.simps)
        from "5.IH"(2) [OF \<open>item \<notin> set excludeDirs\<close> Inr yes this acc'] show ?thesis .
      qed
    qed
  qed
next
  case (6 lc cm item content rest excludeDirs includeExtensions acc)
  show ?case
  proof (cases "extensionIncluded cm includeExtensions item")
    case True
    with "6.prems"(1) have
      "forItems lc cm rest excludeDirs includeExtensions (acc @ [FileTree item TFile None]) = Inr cs"
      by simp
    moreover from "6.prems"(2) True have
      "\<forall>c \<in> set (acc @ [FileTree item TFile None]).
         dirsNonEmpty c \<and> filesPass cm includeExtensions c" by simp
    ultimately show ?thesis using "6.IH"(1) [OF True] by blast
  next
    case False
    with "6.prems"(1) have "forItems lc cm rest excludeDirs includeExtensions acc = Inr cs"
      by simp
    with "6.prems"(2) show ?thesis using "6.IH"(2) [OF False] by blast
  qed
qed simp_all

lemma readableItems_all: "readableItems xd items = (\<forall>e \<in> set items. entryOk xd e)"
proof (induction items)
  case Nil
  show ?case by simp
next
  case (Cons e rest)
  obtain item n where e: "e = (item, n)" by (cases e)
  with Cons show ?case by (cases n) simp_all
qed

lemma set_insertBy: "set (insertBy cmp x xs) = insert x (set xs)"
  by (induction xs) auto

lemma set_sortBy: "set (sortBy cmp xs) = set xs"
  unfolding sortBy_def by (induction xs) (simp_all add: set_insertBy)

lemma entryOk_not_broken: "entryOk xd e \<Longrightarrow> \<not> isBroken (snd e)"
proof -
  assume ok: "entryOk xd e"
  obtain item n where e: "e = (item, n)" by (cases e)
  with ok show ?thesis by (cases n) simp_all
qed

lemma build_total:
  "readable xd node \<Longrightarrow> \<exists>t. buildFileTree lc cm node xd nm ie = Inr t"
  "readableItems xd items \<Longrightarrow> \<exists>cs. forItems lc cm items xd ie acc = Inr cs"
proof (induction lc cm node xd nm ie and lc cm items xd ie acc
    rule: buildFileTree_forItems.induct)
  case (1 lc cm items excludeDirs repoName includeExtensions)
  from "1.prems" have ok: "\<forall>e \<in> set items. entryOk excludeDirs e"
    by (simp add: readableItems_all)
  then have nb: "\<not> list_ex (\<lambda>it. isBroken (snd it)) items"
    by (auto simp: list_ex_iff dest: entryOk_not_broken)
  from ok have "readableItems excludeDirs (sortBy (compareItems lc) items)"
    by (simp add: readableItems_all set_sortBy)
  from "1.IH" [OF nb this] obtain cs where
    "forItems lc cm (sortBy (compareItems lc) items) excludeDirs includeExtensions [] = Inr cs" ..
  with nb show ?case by simp
next
  case (5 lc cm item es rest excludeDirs includeExtensions acc)
  from "5.prems" have rest: "readableItems excludeDirs rest"
    and sub: "item \<in> set excludeDirs \<or> readable excludeDirs (Dir es)" by simp_all
  show ?case
  proof (cases "item \<in> set excludeDirs")
    case True
    then have ex: "\<not> item \<notin> set excludeDirs" by simp
    from "5.IH"(4) [OF ex rest] True show ?thesis by simp
  next
    case False
    with sub have "readable excludeDirs (Dir es)" by simp
    from "5.IH"(1) [OF False this] obtain childTree where
      ct: "buildFileTree lc cm (Dir es) excludeDirs item includeExtensions = Inr childTree" ..
    show ?thesis
    proof (cases "case children childTree of None \<Rightarrow> False | Some cs \<Rightarrow> length cs > 0")
      case True
      from "5.IH"(2) [OF False ct True rest] False ct True show ?thesis
        by (simp del: buildFileTree.simps)
    next
      case no: False
      from "5.IH"(3) [OF False ct no rest] False ct no show ?thesis
        by (simp del: buildFileTree.simps)
    qed
  qed
next
  case (6 lc cm item content rest excludeDirs includeExtensions acc)
  from "6.prems" have rest: "readableItems excludeDirs rest" by simp
  show ?case
  proof (cases "extensionIncluded cm includeExtensions item")
    case True
    from "6.IH"(1) [OF True rest] True show ?thesis by simp
  next
    case False
    from "6.IH"(2) [OF False rest] False show ?thesis by simp
  qed
qed simp_all

text \<open>
  C5. On a directory it can read, \<open>buildFileTree\<close> returns a tree whose root carries the
  given name, and in which every directory node below the root has at least one child, and
  so a file below it, where every file of the tree has passed the extension filter:
  directories that filtering leaves empty are not added, at any depth.
  (On a directory with a broken entry it raises and returns no tree.)
\<close>

theorem buildFileTree_no_empty_directory:
  assumes "readable xd node"
  shows "\<exists>cs. buildFileTree lc cm node xd nm ie = Inr (FileTree nm TDirectory (Some cs))
           \<and> (\<forall>c \<in> set cs. dirsNonEmpty c \<and> hasFile c \<and> filesPass cm ie c)"
proof -
  from build_total(1) [OF assms] obtain t where t: "buildFileTree lc cm node xd nm ie = Inr t" ..
  from build_shape(1) [OF t] obtain cs where
    cs: "t = FileTree nm TDirectory (Some cs)"
    and ok: "\<forall>c \<in> set cs. dirsNonEmpty c \<and> filesPass cm ie c" by blast
  from ok have "\<forall>c \<in> set cs. dirsNonEmpty c \<and> hasFile c \<and> filesPass cm ie c"
    by (blast intro: dirsNonEmpty_hasFile)
  with t cs show ?thesis by blast
qed

lemma sampleRepo_readable: "readable [''node_modules''] sampleRepo"
  by (simp add: sampleRepo_def)

lemma sampleRepo_tree:
  "buildFileTree lcBytes asciiLower sampleRepo [''node_modules''] ''repo'' (Some [''.ts''])
     = Inr (FileTree ''repo'' TDirectory
         (Some [FileTree ''src'' TDirectory (Some [FileTree ''x.TS'' TFile None]),
                FileTree ''a.ts'' TFile None]))"
  by code_simp

theorem buildFileTree_no_empty_directory_witness:
  "readable [''node_modules''] sampleRepo
   \<and> buildFileTree lcBytes asciiLower sampleRepo [''node_modules''] ''repo'' (Some [''.ts''])
     = Inr (FileTree ''repo'' TDirectory
         (Some [FileTree ''src'' TDirectory (Some [FileTree ''x.TS'' TFile None]),
                FileTree ''a.ts'' TFile None]))
   \<and> dirsNonEmpty (FileTree ''src'' TDirectory (Some [FileTree ''x.TS'' TFile None]))
   \<and> hasFile (FileTree ''src'' TDirectory (Some [FileTree ''x.TS'' TFile None]))
   \<and> filesPass asciiLower (Some [''.ts'']) (FileTree ''src'' TDirectory (Some [FileTree ''x.TS'' TFile None]))"
  using buildFileTree_no_empty_directory [OF sampleRepo_readable, of lcBytes asciiLower "''repo''" "Some [''.ts'']"]
    sampleRepo_readable sampleRepo_tree
  by simp

section \<open>path.extname: properties\<close>

lemma record_same: "preDotState st = v \<Longrightarrow> st\<lparr>preDotState := v\<rparr> = st"
  by simp

lemma scan_after_dot:
  assumes "startDot st \<noteq> - 1" and "endPos st \<noteq> - 1" and "\<forall>i<k. path ! i \<noteq> CHR ''/''"
  shows "extname_scan path k st =
           (if k = 0 then st
            else st\<lparr>preDotState := (if path ! 0 = CHR ''.'' then 1 else - 1)\<rparr>)"
  using assms
proof (induction k arbitrary: st)
  case 0
  show ?case by simp
next
  case (Suc i)
  let ?c = "path ! i"
  from Suc.prems have ns: "?c \<noteq> CHR ''/''" and ns': "\<forall>j<i. path ! j \<noteq> CHR ''/''" by simp_all
  define st2 where "st2 = st\<lparr>preDotState := (if ?c = CHR ''.'' then 1 else - 1)\<rparr>"
  have step: "extname_scan path (Suc i) st = extname_scan path i st2"
    using ns Suc.prems(1,2) by (simp add: st2_def Let_def record_same)
  have "startDot st2 \<noteq> - 1" "endPos st2 \<noteq> - 1"
    using Suc.prems(1,2) by (simp_all add: st2_def)
  from Suc.IH [OF this ns'] have
    "extname_scan path i st2 =
       (if i = 0 then st2 else st2\<lparr>preDotState := (if path ! 0 = CHR ''.'' then 1 else - 1)\<rparr>)" .
  with step show ?case by (simp add: st2_def)
qed

lemma scan_no_dot:
  assumes "startDot st = - 1" and "\<forall>i<k. path ! i \<noteq> CHR ''/''"
    and "\<forall>i<k. path ! i \<noteq> CHR ''.''"
  shows "startDot (extname_scan path k st) = - 1"
  using assms
proof (induction k arbitrary: st)
  case 0
  then show ?case by simp
next
  case (Suc i)
  define st1 where
    "st1 = (if endPos st = - 1 then st\<lparr>endPos := int i + 1, matchedSlash := False\<rparr> else st)"
  have st1: "startDot st1 = - 1" using Suc.prems(1) by (simp add: st1_def)
  from Suc.prems have "path ! i \<noteq> CHR ''/''" "path ! i \<noteq> CHR ''.''" by simp_all
  with st1 have "extname_scan path (Suc i) st = extname_scan path i st1"
    by (simp add: st1_def Let_def)
  moreover from Suc.prems have "\<forall>j<i. path ! j \<noteq> CHR ''/''" "\<forall>j<i. path ! j \<noteq> CHR ''.''"
    by simp_all
  from Suc.IH [OF st1 this] have "startDot (extname_scan path i st1) = - 1" .
  ultimately show ?case by simp
qed

lemma scan_last_dot:
  assumes "startDot st = - 1" and "preDotState st = 0" and "\<forall>i<k. path ! i \<noteq> CHR ''/''"
    and "j < k" and "path ! j = CHR ''.''" and "\<forall>i. j < i \<and> i < k \<longrightarrow> path ! i \<noteq> CHR ''.''"
  shows "startDot (extname_scan path k st) = int j
           \<and> preDotState (extname_scan path k st)
                = (if j = 0 then 0 else if path ! 0 = CHR ''.'' then 1 else - 1)
           \<and> endPos (extname_scan path k st) = (if endPos st = - 1 then int k else endPos st)
           \<and> startPart (extname_scan path k st) = startPart st"
  using assms
proof (induction k arbitrary: st)
  case 0
  then show ?case by simp
next
  case (Suc i)
  let ?c = "path ! i"
  define st1 where
    "st1 = (if endPos st = - 1 then st\<lparr>endPos := int i + 1, matchedSlash := False\<rparr> else st)"
  have st1: "startDot st1 = - 1" "preDotState st1 = 0" "endPos st1 \<noteq> - 1"
    "startPart st1 = startPart st"
    "endPos st1 = (if endPos st = - 1 then int (Suc i) else endPos st)"
    using Suc.prems(1,2) by (auto simp: st1_def)
  from Suc.prems(3) have ns: "?c \<noteq> CHR ''/''" and ns': "\<forall>l<i. path ! l \<noteq> CHR ''/''"
    by simp_all
  show ?case
  proof (cases "?c = CHR ''.''")
    case True
    have "j = i"
    proof (rule ccontr)
      assume "j \<noteq> i"
      with Suc.prems(4) have "j < i" by simp
      with Suc.prems(6) True show False by simp
    qed
    define st2 where "st2 = st1\<lparr>startDot := int i\<rparr>"
    from ns True st1(1) have step: "extname_scan path (Suc i) st = extname_scan path i st2"
      by (simp add: st1_def st2_def Let_def)
    have "startDot st2 \<noteq> - 1" "endPos st2 \<noteq> - 1" using st1 by (simp_all add: st2_def)
    from scan_after_dot [OF this ns'] have
      "extname_scan path i st2 =
        (if i = 0 then st2 else st2\<lparr>preDotState := (if path ! 0 = CHR ''.'' then 1 else - 1)\<rparr>)" .
    with step \<open>j = i\<close> st1 show ?thesis by (simp add: st2_def)
  next
    case False
    with Suc.prems(4,5) have ji: "j < i" by (cases "j = i") auto
    from Suc.prems(6) have nd: "\<forall>l. j < l \<and> l < i \<longrightarrow> path ! l \<noteq> CHR ''.''" by simp
    from ns False st1(1) have step: "extname_scan path (Suc i) st = extname_scan path i st1"
      by (simp add: st1_def Let_def)
    from Suc.IH [OF st1(1,2) ns' ji Suc.prems(5) nd] step st1 show ?thesis by simp
  qed
qed

text \<open>
  When \<open>path.extname\<close> is empty, for a name without a slash: the name has no dot after its
  first character, or it is \<open>..\<close> (which is never an entry of a listing).
\<close>

lemma extname_empty_iff:
  assumes ns: "CHR ''/'' \<notin> set path"
  shows "extname path = [] \<longleftrightarrow> CHR ''.'' \<notin> set (tl path) \<or> path = ''..''"
proof -
  let ?st = "\<lparr>startDot = - 1, startPart = 0, endPos = - 1, matchedSlash = True, preDotState = 0\<rparr>"
  let ?r = "extname_scan path (length path) ?st"
  from ns have ns': "\<forall>i<length path. path ! i \<noteq> CHR ''/''" by (metis nth_mem)
  show ?thesis
  proof (cases "CHR ''.'' \<in> set path")
    case False
    then have "\<forall>i<length path. path ! i \<noteq> CHR ''.''" by (metis nth_mem)
    from scan_no_dot [OF _ ns' this, of ?st] have "startDot ?r = - 1" by simp
    then have "extname path = []" by (simp add: extname_def Let_def)
    moreover from False have "CHR ''.'' \<notin> set (tl path)" by (cases path) auto
    ultimately show ?thesis by simp
  next
    case True
    then obtain ys zs where p: "path = ys @ CHR ''.'' # zs" and zs: "CHR ''.'' \<notin> set zs"
      by (auto dest: split_list_last)
    define j where "j = length ys"
    have jl: "j < length path" and pj: "path ! j = CHR ''.''" by (simp_all add: p j_def)
    have after: "\<forall>i. j < i \<and> i < length path \<longrightarrow> path ! i \<noteq> CHR ''.''"
    proof (intro allI impI)
      fix i assume i: "j < i \<and> i < length path"
      then have "path ! i = zs ! (i - j - 1)" by (auto simp: p j_def nth_append nth_Cons')
      moreover from i have "i - j - 1 < length zs" by (auto simp: p j_def)
      ultimately show "path ! i \<noteq> CHR ''.''" using zs by (metis nth_mem)
    qed
    from scan_last_dot [OF _ _ ns' jl pj after, of ?st]
    have r: "startDot ?r = int j"
      "preDotState ?r = (if j = 0 then 0 else if path ! 0 = CHR ''.'' then 1 else - 1)"
      "endPos ?r = int (length path)" "startPart ?r = 0"
      by simp_all
    have ne: "drop j (take (length path) path) \<noteq> []" using jl by simp
    have ext: "extname path = [] \<longleftrightarrow>
        j = 0 \<or> (j \<noteq> 0 \<and> path ! 0 = CHR ''.'' \<and> j = length path - 1 \<and> j = 1)"
      using r ne jl by (auto simp: extname_def Let_def)
    show ?thesis
    proof (cases "j = 0")
      case True
      then have "ys = []" by (simp add: j_def)
      with p zs have "CHR ''.'' \<notin> set (tl path)" by simp
      with ext True show ?thesis by simp
    next
      case False
      then have "ys \<noteq> []" by (simp add: j_def)
      then have "CHR ''.'' \<in> set (tl path)" using p by (cases ys) auto
      moreover have "(path ! 0 = CHR ''.'' \<and> j = length path - 1 \<and> j = 1) \<longleftrightarrow> path = ''..''"
      proof
        assume a: "path ! 0 = CHR ''.'' \<and> j = length path - 1 \<and> j = 1"
        then have "length ys = 1" and "zs = []" using jl by (auto simp: j_def p)
        then obtain c where "ys = [c]" by (cases ys) auto
        with a p \<open>zs = []\<close> show "path = ''..''" by simp
      next
        assume "path = ''..''"
        with p zs have "ys = ''.''" "zs = []"
          by (auto simp: append_eq_Cons_conv Cons_eq_append_conv)
        with \<open>path = ''..''\<close> show "path ! 0 = CHR ''.'' \<and> j = length path - 1 \<and> j = 1"
          by (simp add: j_def)
      qed
      ultimately show ?thesis using ext False by simp
    qed
  qed
qed

lemma toLowerCase_empty: "toLowerCase cm e = [] \<longleftrightarrow> e = []"
  using toLowerCase [of cm] by simp

lemma empty_ext_included:
  assumes "extname item = []"
  shows "extensionIncluded cm (Some exts) item \<longleftrightarrow> [] \<in> set exts"
proof -
  have z: "toLowerCase cm [] = []" by (simp add: toLowerCase_empty)
  have "[] \<in> toLowerCase cm ` set exts \<longleftrightarrow> (\<exists>e \<in> set exts. toLowerCase cm e = [])"
    by (metis (no_types) image_iff)
  then have "[] \<in> toLowerCase cm ` set exts \<longleftrightarrow> [] \<in> set exts"
    by (simp add: toLowerCase_empty)
  with assms z show ?thesis by (simp add: extensionIncluded_def)
qed

text \<open>
  C10. With \<open>includeExtensions\<close> present, a file whose name has no dot after its first
  character (a dotfile such as \<open>.gitignore\<close>, a name such as \<open>Makefile\<close>) has the empty
  extension; it passes the extension filter exactly when the empty string is a member of
  \<open>includeExtensions\<close>, so never for a set of extensions that all start with a dot, and
  \<open>buildFileTree\<close> adds it to the tree and \<open>processDirectory\<close> appends it only then.
\<close>

theorem empty_extension_needs_empty_member:
  assumes "CHR ''/'' \<notin> set item" and "item \<noteq> ''..''" and "CHR ''.'' \<notin> set (tl item)"
  shows "extname item = []
    \<and> (extensionIncluded cm (Some exts) item \<longleftrightarrow> [] \<in> set exts)
    \<and> ((\<forall>e \<in> set exts. e \<noteq> []) \<longrightarrow> \<not> extensionIncluded cm (Some exts) item)
    \<and> forItems lc cm ((item, File content) # rest) xd (Some exts) acc
        = forItems lc cm rest xd (Some exts)
            (if [] \<in> set exts then acc @ [FileTree item TFile None] else acc)
    \<and> processItems cm tempDir repoName xd xf (Some exts) dir ((item, File content) # rest) merged
        = processItems cm tempDir repoName xd xf (Some exts) dir rest
            (if item \<notin> set xf \<and> [] \<in> set exts
             then merged @ fileBlock tempDir repoName (joinPath dir item) content
             else merged)"
proof -
  from assms have e: "extname item = []" by (simp add: extname_empty_iff)
  then show ?thesis by (auto simp: empty_ext_included fileQualifies_def)
qed

theorem empty_extension_needs_empty_member_witness:
  "extname ''.gitignore'' = [] \<and> extname ''Makefile'' = []
   \<and> \<not> extensionIncluded asciiLower (Some [''.gitignore'', ''.ts'']) ''.gitignore''
   \<and> forItems lcBytes asciiLower [(''.gitignore'', File ''dist''), (''Makefile'', File ''all:'')] []
        (Some [''.gitignore'', ''.ts'']) []
      = Inr []
   \<and> processItems asciiLower ''/t'' ''repo'' [] [] (Some [''.gitignore'', ''.ts'']) ''/t''
        [(''.gitignore'', File ''dist''), (''Makefile'', File ''all:'')] ''H''
      = Inr ''H''"
proof -
  have g: "CHR ''/'' \<notin> set ''.gitignore''" "''.gitignore'' \<noteq> ''..''"
    "CHR ''.'' \<notin> set (tl ''.gitignore'')" by simp_all
  have m: "CHR ''/'' \<notin> set ''Makefile''" "''Makefile'' \<noteq> ''..''"
    "CHR ''.'' \<notin> set (tl ''Makefile'')" by simp_all
  note a = empty_extension_needs_empty_member [OF g]
  note b = empty_extension_needs_empty_member [OF m]
  show ?thesis
    by (simp only: a b) simp
qed

section \<open>The concatenation walk: properties\<close>

lemma blocks_append: "blocks td rn (xs @ ys) = blocks td rn xs @ blocks td rn ys"
  by (simp add: blocks_def)

lemma fileQualifies_qualifies: "fileQualifies cm xf ie item = qualifies cm xf ie item"
proof (cases ie)
  case None
  then show ?thesis by (simp add: fileQualifies_def qualifies_def extensionIncluded_def)
next
  case (Some exts)
  have "toLowerCase cm (extname item) \<in> toLowerCase cm ` set exts
          \<longleftrightarrow> (\<exists>e \<in> set exts. toLowerCase cm e = toLowerCase cm (extname item))"
    by (metis (no_types) image_iff)
  with Some show ?thesis by (simp add: fileQualifies_def qualifies_def extensionIncluded_def)
qed

lemma process_blocks:
  "readable xd node \<Longrightarrow>
     processDirectory cm td rn xd xf ie dir node m
       = Inr (m @ blocks td rn (filter (\<lambda>(p, item, c). fileQualifies cm xf ie item)
                                  (walkFiles xd dir node)))"
  "readableItems xd items \<Longrightarrow>
     processItems cm td rn xd xf ie dir items m
       = Inr (m @ blocks td rn (filter (\<lambda>(p, item, c). fileQualifies cm xf ie item)
                                  (walkItems xd dir items)))"
proof (induction cm td rn xd xf ie dir node m and cm td rn xd xf ie dir items m
    rule: processDirectory_processItems.induct)
  case (1 cm tempDir repoName excludeDirs excludeFiles includeExtensions directory items mergedContent)
  then show ?case by simp
next
  case (6 cm tempDir repoName excludeDirs excludeFiles includeExtensions directory item es rest
      mergedContent)
  from "6.prems" have rest: "readableItems excludeDirs rest"
    and sub: "item \<in> set excludeDirs \<or> readable excludeDirs (Dir es)" by simp_all
  show ?case
  proof (cases "item \<in> set excludeDirs")
    case True
    then have ex: "\<not> item \<notin> set excludeDirs" by simp
    from "6.IH"(3) [OF ex rest] True show ?thesis by simp
  next
    case False
    with sub have r: "readable excludeDirs (Dir es)" by simp
    note a = "6.IH"(1) [OF False r]
    note b = "6.IH"(2) [OF False a rest]
    from False a b show ?thesis
      by (simp add: blocks_append del: processDirectory.simps)
  qed
next
  case (7 cm tempDir repoName excludeDirs excludeFiles includeExtensions directory item content rest
      mergedContent)
  from "7.prems" have rest: "readableItems excludeDirs rest" by simp
  show ?case
  proof (cases "fileQualifies cm excludeFiles includeExtensions item")
    case True
    from "7.IH"(1) [OF True rest] True show ?thesis by (simp add: blocks_def)
  next
    case False
    from "7.IH"(2) [OF False rest] False show ?thesis by simp
  qed
qed (simp_all add: blocks_def)

text \<open>
  C7. On a directory it can read, the walk appends the contents of a file it reaches if and
  only if the name of the file is not in \<open>excludeFiles\<close> and \<open>includeExtensions\<close> is absent
  or has a member equal, in lower case, to the lower-case extension of the file (under every
  case mapping): what is appended is, for exactly these files and in the order of the walk,
  a line feed, the line \<open>// File:\<close> with the path in which the first \<open>tempDir/\<close> is replaced
  by \<open>repoName/\<close>, the contents of the file and a line feed.
\<close>

theorem file_appended_iff_qualifies:
  assumes "readable xd node"
  shows "processDirectory cm tempDir repoName xd xf ie dir node merged
           = Inr (merged @ concat (map
                    (\<lambda>(fullPath, item, content).
                       [CHR 0x0A] @ ''// File: ''
                         @ replace_str fullPath (tempDir @ ''/'') (repoName @ ''/'')
                         @ [CHR 0x0A] @ content @ [CHR 0x0A])
                    (filter (\<lambda>(fullPath, item, content). qualifies cm xf ie item)
                       (walkFiles xd dir node))))"
proof -
  have "blocks tempDir repoName fs
      = concat (map (\<lambda>(fullPath, item, content).
                       [CHR 0x0A] @ ''// File: ''
                         @ replace_str fullPath (tempDir @ ''/'') (repoName @ ''/'')
                         @ [CHR 0x0A] @ content @ [CHR 0x0A]) fs)" for fs
    by (simp add: blocks_def fileBlock_def newline_def)
  with process_blocks(1) [OF assms, of cm tempDir repoName xf ie dir merged]
  show ?thesis by (simp add: fileQualifies_qualifies)
qed

lemma mixedDir_readable: "readable [] mixedDir"
  by (simp add: mixedDir_def)

theorem file_appended_iff_qualifies_witness:
  "readable [] mixedDir
   \<and> qualifies asciiLower [''secrets.env'', ''a.ts''] (Some [''.ts'', ''.env'']) ''X.TS''
   \<and> \<not> qualifies asciiLower [''secrets.env'', ''a.ts''] (Some [''.ts'', ''.env'']) ''a.ts''
   \<and> \<not> qualifies asciiLower [''secrets.env'', ''a.ts''] (Some [''.ts'', ''.env'']) ''notes.md''
   \<and> \<not> qualifies asciiLower [''secrets.env'', ''a.ts''] (Some [''.ts'', ''.env''])
         ''secrets.env''
   \<and> processDirectory asciiLower ''/t'' ''repo'' [] [''secrets.env'', ''a.ts'']
         (Some [''.ts'', ''.env'']) ''/t'' mixedDir ''H''
       = Inr (''H'' @ [CHR 0x0A] @ ''// File: repo/X.TS'' @ [CHR 0x0A] @ ''x'' @ [CHR 0x0A])
   \<and> processDirectory asciiLower ''/t'' ''repo'' [] [''secrets.env''] None ''/t'' mixedDir ''H''
       = Inr (''H'' @ [CHR 0x0A] @ ''// File: repo/X.TS'' @ [CHR 0x0A] @ ''x'' @ [CHR 0x0A]
                 @ [CHR 0x0A] @ ''// File: repo/a.ts'' @ [CHR 0x0A] @ ''a'' @ [CHR 0x0A]
                 @ [CHR 0x0A] @ ''// File: repo/notes.md'' @ [CHR 0x0A] @ ''n'' @ [CHR 0x0A])"
proof -
  have q: "qualifies asciiLower [''secrets.env'', ''a.ts''] (Some [''.ts'', ''.env'']) ''X.TS''"
    "\<not> qualifies asciiLower [''secrets.env'', ''a.ts''] (Some [''.ts'', ''.env'']) ''a.ts''"
    "\<not> qualifies asciiLower [''secrets.env'', ''a.ts''] (Some [''.ts'', ''.env'']) ''notes.md''"
    "\<not> qualifies asciiLower [''secrets.env'', ''a.ts''] (Some [''.ts'', ''.env'']) ''secrets.env''"
    "qualifies asciiLower [''secrets.env''] None ''X.TS''"
    "qualifies asciiLower [''secrets.env''] None ''a.ts''"
    "qualifies asciiLower [''secrets.env''] None ''notes.md''"
    "\<not> qualifies asciiLower [''secrets.env''] None ''secrets.env''"
    by code_simp+
  have w: "walkFiles [] ''/t'' mixedDir
      = [(''/t/X.TS'', ''X.TS'', ''x''), (''/t/a.ts'', ''a.ts'', ''a''),
         (''/t/notes.md'', ''notes.md'', ''n''), (''/t/secrets.env'', ''secrets.env'', ''s'')]"
    by (simp add: mixedDir_def joinPath_def)
  have r: "replace_str ''/t/X.TS'' ''/t/'' ''repo/'' = ''repo/X.TS''"
    "replace_str ''/t/a.ts'' ''/t/'' ''repo/'' = ''repo/a.ts''"
    "replace_str ''/t/notes.md'' ''/t/'' ''repo/'' = ''repo/notes.md''"
    by code_simp+
  show ?thesis
    using file_appended_iff_qualifies [OF mixedDir_readable,
        of asciiLower "''/t''" "''repo''" "[''secrets.env'', ''a.ts'']" "Some [''.ts'', ''.env'']"
          "''/t''" "''H''"]
      file_appended_iff_qualifies [OF mixedDir_readable,
        of asciiLower "''/t''" "''repo''" "[''secrets.env'']" None "''/t''" "''H''"]
      mixedDir_readable q
    by (simp add: w r)
qed

lemma childFiles_append: "childFiles dir (xs @ ys) = childFiles dir xs @ childFiles dir ys"
  by (induction xs) simp_all

lemma tree_walk:
  "canonical lc xd node \<Longrightarrow> buildFileTree lc cm node xd nm ie = Inr t \<Longrightarrow>
     treeFiles dir t
       = map pathName (filter (\<lambda>(p, item, c). extensionIncluded cm ie item) (walkFiles xd dir node))"
  "canonicalItems lc xd items \<Longrightarrow> forItems lc cm items xd ie acc = Inr cs \<Longrightarrow>
     childFiles dir cs
       = childFiles dir acc
           @ map pathName (filter (\<lambda>(p, item, c). extensionIncluded cm ie item)
                             (walkItems xd dir items))"
proof (induction lc cm node xd nm ie and lc cm items xd ie acc arbitrary: t dir and cs dir
    rule: buildFileTree_forItems.induct)
  case (1 lc cm items excludeDirs repoName includeExtensions)
  from "1.prems"(1) have so: "sortBy (compareItems lc) items = items"
    and ci: "canonicalItems lc excludeDirs items" by simp_all
  from "1.prems"(2) have nb: "\<not> list_ex (\<lambda>it. isBroken (snd it)) items"
    by (simp split: if_splits)
  with "1.prems"(2) so obtain cs where
    f: "forItems lc cm items excludeDirs includeExtensions [] = Inr cs"
    and t: "t = FileTree repoName TDirectory (Some cs)"
    by (cases "forItems lc cm items excludeDirs includeExtensions []") simp_all
  from ci so have ci': "canonicalItems lc excludeDirs (sortBy (compareItems lc) items)" by simp
  from f so have f': "forItems lc cm (sortBy (compareItems lc) items) excludeDirs includeExtensions []
      = Inr cs" by simp
  from "1.IH" [OF nb ci' f', of dir] so t show ?case by simp
next
  case (5 lc cm item es rest excludeDirs includeExtensions acc)
  from "5.prems"(1) have rest: "canonicalItems lc excludeDirs rest"
    and sub: "item \<in> set excludeDirs \<or> canonical lc excludeDirs (Dir es)" by simp_all
  show ?case
  proof (cases "item \<in> set excludeDirs")
    case True
    then have ex: "\<not> item \<notin> set excludeDirs" by simp
    from "5.prems"(2) True
    have "forItems lc cm rest excludeDirs includeExtensions acc = Inr cs" by simp
    from "5.IH"(4) [OF ex rest this, of dir] True show ?thesis by simp
  next
    case False
    with sub have can: "canonical lc excludeDirs (Dir es)" by simp
    from "5.prems"(2) False obtain childTree where
      ct: "buildFileTree lc cm (Dir es) excludeDirs item includeExtensions = Inr childTree"
      by (cases "buildFileTree lc cm (Dir es) excludeDirs item includeExtensions")
        (simp_all del: buildFileTree.simps)
    from build_shape(1) [OF ct] obtain ccs where
      shape: "childTree = FileTree item TDirectory (Some ccs)" by blast
    note sub_eq = "5.IH"(1) [OF False can ct, of "joinPath dir item"]
    show ?thesis
    proof (cases "ccs = []")
      case True
      with shape have no: "\<not> (case children childTree of None \<Rightarrow> False | Some cs \<Rightarrow> length cs > 0)"
        by simp
      from "5.prems"(2) False ct no
      have f: "forItems lc cm rest excludeDirs includeExtensions acc = Inr cs"
        by (simp del: buildFileTree.simps)
      from sub_eq shape True have
        "map pathName (filter (\<lambda>(p, item, c). extensionIncluded cm includeExtensions item)
           (walkFiles excludeDirs (joinPath dir item) (Dir es))) = []" by simp
      with "5.IH"(3) [OF False ct no rest f, of dir] False show ?thesis by simp
    next
      case ne: False
      with shape have yes: "(case children childTree of None \<Rightarrow> False | Some cs \<Rightarrow> length cs > 0)"
        by simp
      from "5.prems"(2) False ct yes
      have f: "forItems lc cm rest excludeDirs includeExtensions (acc @ [childTree]) = Inr cs"
        by (simp del: buildFileTree.simps)
      from shape have nm: "name childTree = item" by simp
      from "5.IH"(2) [OF False ct yes rest f, of dir] sub_eq nm False show ?thesis
        by (simp add: childFiles_append)
    qed
  qed
next
  case (6 lc cm item content rest excludeDirs includeExtensions acc)
  from "6.prems"(1) have rest: "canonicalItems lc excludeDirs rest" by simp
  show ?case
  proof (cases "extensionIncluded cm includeExtensions item")
    case True
    with "6.prems"(2) have
      "forItems lc cm rest excludeDirs includeExtensions (acc @ [FileTree item TFile None]) = Inr cs"
      by simp
    from "6.IH"(1) [OF True rest this, of dir] True show ?thesis
      by (simp add: childFiles_append pathName_def)
  next
    case False
    with "6.prems"(2) have "forItems lc cm rest excludeDirs includeExtensions acc = Inr cs"
      by simp
    from "6.IH"(2) [OF False rest this, of dir] False show ?thesis by simp
  qed
qed simp_all

lemma filter_qualifies:
  "map pathName (filter (\<lambda>(p, item, c). fileQualifies cm xf ie item) ws)
     = filter (\<lambda>(p, item). item \<notin> set xf)
         (map pathName (filter (\<lambda>(p, item, c). extensionIncluded cm ie item) ws))"
  by (induction ws) (auto simp: fileQualifies_def pathName_def)

text \<open>
  C2, as the claim states it, fails: \<open>processDirectory\<close> does not sort. On a listing that
  has the file \<open>a.ts\<close> before the directory \<open>src\<close>, the tree has \<open>src\<close> first and the
  merged text has \<open>a.ts\<close> first; and the merged text changes with the order of the listing.
\<close>

theorem walk_order_counterexample:
  "buildFileTree lcBytes asciiLower fileFirst [] ''repo'' None
     = Inr (FileTree ''repo'' TDirectory
         (Some [FileTree ''src'' TDirectory (Some [FileTree ''x.ts'' TFile None]),
                FileTree ''a.ts'' TFile None]))
   \<and> processDirectory asciiLower ''/t'' ''repo'' [] [] None ''/t'' fileFirst ''H''
     = Inr (''H'' @ fileBlock ''/t'' ''repo'' ''/t/a.ts'' ''A''
                 @ fileBlock ''/t'' ''repo'' ''/t/src/x.ts'' ''X'')
   \<and> processDirectory asciiLower ''/t'' ''repo'' [] [] None ''/t'' dirFirst ''H''
     = Inr (''H'' @ fileBlock ''/t'' ''repo'' ''/t/src/x.ts'' ''X''
                 @ fileBlock ''/t'' ''repo'' ''/t/a.ts'' ''A'')
   \<and> processDirectory asciiLower ''/t'' ''repo'' [] [] None ''/t'' fileFirst ''H''
     \<noteq> processDirectory asciiLower ''/t'' ''repo'' [] [] None ''/t'' dirFirst ''H''"
  by code_simp

text \<open>
  C2, amended. On a directory it can read, the walk appends the qualifying files depth-first
  in the order in which the listings return the entries. When every listing it reads is
  already in the order of \<open>buildFileTree\<close>, that is the order of the tree: the files appended
  are the files of the tree, in its order, without those excluded by name.
\<close>

theorem walk_follows_listing_order:
  assumes "readable xd node"
  shows "processDirectory cm tempDir repoName xd xf ie dir node merged
           = Inr (merged @ blocks tempDir repoName
                    (filter (\<lambda>(p, item, c). fileQualifies cm xf ie item) (walkFiles xd dir node)))
    \<and> (canonical lc xd node \<longrightarrow>
         (\<exists>t. buildFileTree lc cm node xd nm ie = Inr t
            \<and> map pathName (filter (\<lambda>(p, item, c). fileQualifies cm xf ie item)
                               (walkFiles xd dir node))
                = filter (\<lambda>(p, item). item \<notin> set xf) (treeFiles dir t)))"
proof (intro conjI impI)
  show "processDirectory cm tempDir repoName xd xf ie dir node merged
           = Inr (merged @ blocks tempDir repoName
                    (filter (\<lambda>(p, item, c). fileQualifies cm xf ie item) (walkFiles xd dir node)))"
    by (rule process_blocks(1) [OF assms])
next
  assume can: "canonical lc xd node"
  from build_total(1) [OF assms] obtain t where t: "buildFileTree lc cm node xd nm ie = Inr t" ..
  from tree_walk(1) [OF can t, of dir] have
    "map pathName (filter (\<lambda>(p, item, c). fileQualifies cm xf ie item) (walkFiles xd dir node))
       = filter (\<lambda>(p, item). item \<notin> set xf) (treeFiles dir t)"
    by (simp add: filter_qualifies)
  with t show "\<exists>t. buildFileTree lc cm node xd nm ie = Inr t
            \<and> map pathName (filter (\<lambda>(p, item, c). fileQualifies cm xf ie item)
                               (walkFiles xd dir node))
                = filter (\<lambda>(p, item). item \<notin> set xf) (treeFiles dir t)" by blast
qed

lemma libFirst_facts:
  "readable [] libFirst" "canonical lcBytes [] libFirst"
  "buildFileTree lcBytes asciiLower libFirst [] ''repo'' None
     = Inr (FileTree ''repo'' TDirectory
         (Some [FileTree ''lib'' TDirectory (Some [FileTree ''x.ts'' TFile None]),
                FileTree ''main.ts'' TFile None]))"
  by code_simp+

theorem walk_follows_listing_order_witness:
  "readable [] libFirst \<and> canonical lcBytes [] libFirst
   \<and> processDirectory asciiLower ''/t'' ''repo'' [] [] None ''/t'' libFirst ''H''
     = Inr (''H'' @ fileBlock ''/t'' ''repo'' ''/t/lib/x.ts'' ''X''
                 @ fileBlock ''/t'' ''repo'' ''/t/main.ts'' ''M'')
   \<and> treeFiles ''/t'' (FileTree ''repo'' TDirectory
         (Some [FileTree ''lib'' TDirectory (Some [FileTree ''x.ts'' TFile None]),
                FileTree ''main.ts'' TFile None]))
     = [(''/t/lib/x.ts'', ''x.ts''), (''/t/main.ts'', ''main.ts'')]"
proof -
  have w: "walkFiles [] ''/t'' libFirst
      = [(''/t/lib/x.ts'', ''x.ts'', ''X''), (''/t/main.ts'', ''main.ts'', ''M'')]"
    by (simp add: libFirst_def joinPath_def)
  have q: "fileQualifies asciiLower [] None ''x.ts''" "fileQualifies asciiLower [] None ''main.ts''"
    by (simp_all add: fileQualifies_def extensionIncluded_def)
  from walk_follows_listing_order [OF libFirst_facts(1),
      of asciiLower "''/t''" "''repo''" "[]" None "''/t''" "''H''" lcBytes "''repo''"]
    libFirst_facts
  show ?thesis
    by (simp add: w q blocks_def pathName_def)
qed

section \<open>Workspaces: properties\<close>

lemma cleanupLoop_closed:
  "cleanupLoop dirs w
     = w\<lparr>disk := (\<lambda>p. if p \<in> set dirs \<and> \<not> undeletable w p then None else disk w p)\<rparr>"
proof (induction dirs arbitrary: w)
  case Nil
  show ?case by simp
next
  case (Cons dir dirs)
  show ?case
  proof (cases "disk w dir = None")
    case True
    then have "cleanupLoop (dir # dirs) w = cleanupLoop dirs w" by (simp add: existsSync_def)
    also have "\<dots> = w\<lparr>disk := (\<lambda>p. if p \<in> set dirs \<and> \<not> undeletable w p then None else disk w p)\<rparr>"
      by (rule Cons.IH)
    also have "(\<lambda>p. if p \<in> set dirs \<and> \<not> undeletable w p then None else disk w p)
        = (\<lambda>p. if p \<in> set (dir # dirs) \<and> \<not> undeletable w p then None else disk w p)"
      using True by (auto simp: fun_eq_iff)
    finally show ?thesis .
  next
    case False
    show ?thesis
    proof (cases "undeletable w dir")
      case True
      with False have "cleanupLoop (dir # dirs) w = cleanupLoop dirs w"
        by (simp add: existsSync_def rmSync_def)
      also have "\<dots> = w\<lparr>disk := (\<lambda>p. if p \<in> set dirs \<and> \<not> undeletable w p then None else disk w p)\<rparr>"
        by (rule Cons.IH)
      also have "(\<lambda>p. if p \<in> set dirs \<and> \<not> undeletable w p then None else disk w p)
          = (\<lambda>p. if p \<in> set (dir # dirs) \<and> \<not> undeletable w p then None else disk w p)"
        using True by (auto simp: fun_eq_iff)
      finally show ?thesis .
    next
      case del: False
      define w' where "w' = w\<lparr>disk := (disk w)(dir := None)\<rparr>"
      from False del have "cleanupLoop (dir # dirs) w = cleanupLoop dirs w'"
        by (auto simp: existsSync_def rmSync_def w'_def)
      also have "\<dots> = w'\<lparr>disk := (\<lambda>p. if p \<in> set dirs \<and> \<not> undeletable w' p then None else disk w' p)\<rparr>"
        by (rule Cons.IH)
      also have "\<dots> = w\<lparr>disk := (\<lambda>p. if p \<in> set (dir # dirs) \<and> \<not> undeletable w p then None else disk w p)\<rparr>"
        using del by (auto simp: w'_def fun_eq_iff)
      finally show ?thesis .
    qed
  qed
qed

lemma cleanup_closed:
  "cleanup w
     = w\<lparr>disk := (\<lambda>p. if p \<in> set (tempDirectories w) \<and> \<not> undeletable w p then None
                       else disk w p),
          console := console w @ [cleanupMessage]\<rparr>"
  by (simp add: cleanup_def cleanupLoop_closed consoleLog_def cong del: if_weak_cong)

text \<open>
  \<open>cleanup\<close> always returns, with the errors of \<open>rmSync\<close> suppressed: after it, every
  registered directory whose removal does not fail is absent, and one whose removal fails is
  on disk as before; a second call changes nothing but the console, and so does a call when
  the directories are already absent.
\<close>

lemma cleanup_suppresses_errors:
  "(\<forall>d \<in> set (tempDirectories w). \<not> undeletable w d \<longrightarrow> \<not> existsSync (cleanup w) d)
   \<and> (\<forall>d. undeletable w d \<longrightarrow> existsSync (cleanup w) d = existsSync w d)
   \<and> cleanup (cleanup w) = consoleLog (cleanup w) cleanupMessage
   \<and> ((\<forall>d \<in> set (tempDirectories w). \<not> existsSync w d)
        \<longrightarrow> cleanup w = consoleLog w cleanupMessage)"
proof (intro conjI)
  show "\<forall>d \<in> set (tempDirectories w). \<not> undeletable w d \<longrightarrow> \<not> existsSync (cleanup w) d"
    by (simp add: cleanup_closed existsSync_def)
  show "\<forall>d. undeletable w d \<longrightarrow> existsSync (cleanup w) d = existsSync w d"
    by (simp add: cleanup_closed existsSync_def)
  show "cleanup (cleanup w) = consoleLog (cleanup w) cleanupMessage"
    by (simp add: cleanup_closed consoleLog_def fun_eq_iff)
  show "(\<forall>d \<in> set (tempDirectories w). \<not> existsSync w d)
        \<longrightarrow> cleanup w = consoleLog w cleanupMessage"
  proof
    assume a: "\<forall>d \<in> set (tempDirectories w). \<not> existsSync w d"
    then have "(\<lambda>p. if p \<in> set (tempDirectories w) \<and> \<not> undeletable w p then None else disk w p)
        = disk w" by (auto simp: fun_eq_iff existsSync_def)
    then show "cleanup w = consoleLog w cleanupMessage"
      by (simp add: cleanup_closed consoleLog_def)
  qed
qed

text \<open>
  The release at the end of \<open>mergeRepositoryFiles\<close> raises the error of \<open>rmSync\<close> when the
  directory is on disk and its removal fails; in every other state it returns, with the
  directory absent and unregistered.
\<close>

lemma releaseTempDir_cases:
  "releaseTempDir dir w =
     (if existsSync w dir \<and> undeletable w dir then Inl (Error ''EPERM: operation not permitted'')
      else Inr (w\<lparr>disk := (disk w)(dir := None),
                  tempDirectories := filter (\<lambda>d. d \<noteq> dir) (tempDirectories w)\<rparr>))"
  by (auto simp: releaseTempDir_def rmSync_def existsSync_def fun_upd_idem)

section \<open>mergeRepositoryFiles: properties\<close>

lemma children_empty: "treeIsEmpty t = (childList t = [])"
  by (cases t) (auto simp: treeIsEmpty_def split: option.splits)

lemma clone_ok:
  "gitClone ev url (if truthy br then br else None) = Inr node \<Longrightarrow>
     cloneRepository ev url td br w = (True, w\<lparr>disk := (disk w)(td \<mapsto> node)\<rparr>)"
  by (simp add: cloneRepository_def)

lemma clone_fail:
  "gitClone ev url (if truthy br then br else None) = Inl e \<Longrightarrow>
     \<exists>line. cloneRepository ev url td br w = (False, consoleLog w line)"
  by (auto simp: cloneRepository_def)

lemma mergeTry_clone_fail:
  assumes "gitClone ev url (if truthy br then br else None) = Inl e"
  shows "\<exists>line. mergeTry ev lc cm url td rn xd xf op ie br w = (False, consoleLog w line)"
proof -
  from clone_fail [OF assms] obtain line where
    "cloneRepository ev url td br w = (False, consoleLog w line)" ..
  then show ?thesis by (auto simp: mergeTry_def)
qed

lemma mergeTry_build_fail:
  assumes "gitClone ev url (if truthy br then br else None) = Inr node"
    and "buildFileTree lc cm node xd rn ie = Inl e"
  shows "\<exists>line. mergeTry ev lc cm url td rn xd xf op ie br w
           = (False, consoleLog (w\<lparr>disk := (disk w)(td \<mapsto> node)\<rparr>) line)"
  using assms(2) by (auto simp: mergeTry_def clone_ok [OF assms(1)])

lemma mergeTry_empty:
  assumes "gitClone ev url (if truthy br then br else None) = Inr node"
    and "buildFileTree lc cm node xd rn ie = Inr ft" and "childList ft = []"
  shows "mergeTry ev lc cm url td rn xd xf op ie br w
           = (False, consoleLog (w\<lparr>disk := (disk w)(td \<mapsto> node)\<rparr>) noFilesMessage)"
  using assms(2,3) by (simp add: mergeTry_def clone_ok [OF assms(1)] children_empty)

lemma mergeTry_nonempty:
  assumes "gitClone ev url (if truthy br then br else None) = Inr node"
    and "buildFileTree lc cm node xd rn ie = Inr ft" and "childList ft \<noteq> []"
  shows "mergeTry ev lc cm url td rn xd xf op ie br w
           = (let w1 = w\<lparr>disk := (disk w)(td \<mapsto> node)\<rparr> in
              case processDirectory cm td rn xd xf ie td node
                     (mergeHeader url br (isoDate ev) (treeString rn ft)) of
                Inl e \<Rightarrow> (False, consoleLog w1 (''Error: '' @ message e))
              | Inr merged \<Rightarrow>
                  (case writeFileSync w1 op merged of
                     Inl e \<Rightarrow> (False, consoleLog w1 (''Error: '' @ message e))
                   | Inr w2 \<Rightarrow> (True, w2)))"
  using assms(2,3) by (simp add: mergeTry_def clone_ok [OF assms(1)] children_empty Let_def)

lemma writeFileSync_written:
  "writeFileSync w p content = Inr w2 \<Longrightarrow> written w2 = written w @ [(p, content)]"
  by (auto simp: writeFileSync_def split: if_splits)

text \<open>When the \<open>try\<close> block writes, and what.\<close>

lemma mergeTry_written:
  assumes "mergeTry ev lc cm url td rn xd xf op ie br w = (res, w1)"
  shows "(\<not> res \<and> written w1 = written w)
       \<or> (res \<and> (\<exists>node ft merged.
              gitClone ev url (if truthy br then br else None) = Inr node
              \<and> buildFileTree lc cm node xd rn ie = Inr ft \<and> childList ft \<noteq> []
              \<and> written w1 = written w @ [(op, merged)]))"
proof (cases "gitClone ev url (if truthy br then br else None)")
  case (Inl e)
  from mergeTry_clone_fail [OF Inl, of lc cm td rn xd xf op ie w] obtain line where
    "mergeTry ev lc cm url td rn xd xf op ie br w = (False, consoleLog w line)" ..
  with assms show ?thesis by (auto simp: consoleLog_def)
next
  case (Inr node)
  show ?thesis
  proof (cases "buildFileTree lc cm node xd rn ie")
    case (Inl e)
    from mergeTry_build_fail [OF Inr Inl, of td xf op w] obtain line where
      "mergeTry ev lc cm url td rn xd xf op ie br w
         = (False, consoleLog (w\<lparr>disk := (disk w)(td \<mapsto> node)\<rparr>) line)" ..
    with assms show ?thesis by (auto simp: consoleLog_def)
  next
    case ft: (Inr ft)
    show ?thesis
    proof (cases "childList ft = []")
      case True
      from mergeTry_empty [OF Inr ft True, of td xf op w] assms show ?thesis
        by (auto simp: consoleLog_def)
    next
      case False
      let ?w1 = "w\<lparr>disk := (disk w)(td \<mapsto> node)\<rparr>"
      let ?p = "processDirectory cm td rn xd xf ie td node
                  (mergeHeader url br (isoDate ev) (treeString rn ft))"
      note eq = mergeTry_nonempty [OF Inr ft False, of td xf op w]
      show ?thesis
      proof (cases ?p)
        case (Inl e)
        with eq assms show ?thesis by (auto simp: consoleLog_def Let_def)
      next
        case merged: (Inr merged)
        show ?thesis
        proof (cases "writeFileSync ?w1 op merged")
          case (Inl e)
          with eq merged assms show ?thesis by (auto simp: consoleLog_def Let_def)
        next
          case w2: (Inr w2)
          with eq merged assms have r: "res" "w1 = w2" by (simp_all add: Let_def)
          from writeFileSync_written [OF w2] have "written w2 = written w @ [(op, merged)]"
            by simp
          with r Inr ft False show ?thesis by blast
        qed
      qed
    qed
  qed
qed

lemma releaseTempDir_frame:
  "releaseTempDir td w = Inr w2 \<Longrightarrow> written w2 = written w \<and> console w2 = console w"
  by (auto simp: releaseTempDir_def rmSync_def split: if_splits sum.splits)

lemma merge_unfold:
  "mergeRepositoryFiles ev lc cm url opts w =
     (case mergeTry ev lc cm url (joinPath (tempBaseDir ev) (''repo-'' @ uniqueId ev))
             (getRepoNameFromUrl url)
             (orDefault (excludeDirs opts) defaultExcludeDirs)
             (orDefault (excludeFiles opts) defaultExcludeFiles)
             (orDefault (outputPath opts) ''merged-output.txt'')
             (includeExtensions opts) (branch opts)
             (w\<lparr>tempDirectories := tempDirectories w
                  @ [joinPath (tempBaseDir ev) (''repo-'' @ uniqueId ev)]\<rparr>) of
        (res, w1) \<Rightarrow>
          (case releaseTempDir (joinPath (tempBaseDir ev) (''repo-'' @ uniqueId ev)) w1 of
             Inl e \<Rightarrow> (Raised e, w1)
           | Inr w2 \<Rightarrow> (Returned res, w2)))"
  by (simp add: mergeRepositoryFiles_def Let_def)

text \<open>
  C1. For every call of \<open>mergeRepositoryFiles\<close>: the calls of \<open>writeFileSync\<close> it adds are
  none or one, to the output path. When the tree built from the clone has no children, it
  writes nothing, prints the message of the empty result and does not return \<open>true\<close> (it
  returns \<open>false\<close>, unless the removal of the temporary directory raises). It writes only
  when the clone succeeded and the built tree has a child.
\<close>

theorem merge_writes_once_if_tree_nonempty:
  assumes "mergeRepositoryFiles ev lc cm url opts w = (r, w')"
  shows "(written w' = written w
          \<or> (\<exists>content. written w'
                = written w @ [(orDefault (outputPath opts) ''merged-output.txt'', content)]))
    \<and> (\<forall>node t.
          gitClone ev url (if truthy (branch opts) then branch opts else None) = Inr node
          \<and> buildFileTree lc cm node (orDefault (excludeDirs opts) defaultExcludeDirs)
                (getRepoNameFromUrl url) (includeExtensions opts) = Inr t
          \<and> childList t = []
          \<longrightarrow> written w' = written w \<and> r \<noteq> Returned True
              \<and> (\<not> undeletable w (joinPath (tempBaseDir ev) (''repo-'' @ uniqueId ev))
                   \<longrightarrow> r = Returned False)
              \<and> console w' = console w @ [noFilesMessage])
    \<and> (written w' \<noteq> written w \<longrightarrow>
          (\<exists>node t.
             gitClone ev url (if truthy (branch opts) then branch opts else None) = Inr node
             \<and> buildFileTree lc cm node (orDefault (excludeDirs opts) defaultExcludeDirs)
                   (getRepoNameFromUrl url) (includeExtensions opts) = Inr t
             \<and> childList t \<noteq> []))"
proof -
  let ?td = "joinPath (tempBaseDir ev) (''repo-'' @ uniqueId ev)"
  let ?rn = "getRepoNameFromUrl url"
  let ?xd = "orDefault (excludeDirs opts) defaultExcludeDirs"
  let ?xf = "orDefault (excludeFiles opts) defaultExcludeFiles"
  let ?op = "orDefault (outputPath opts) ''merged-output.txt''"
  let ?w0 = "w\<lparr>tempDirectories := tempDirectories w @ [?td]\<rparr>"
  obtain res w1 where
    tr: "mergeTry ev lc cm url ?td ?rn ?xd ?xf ?op (includeExtensions opts) (branch opts) ?w0
            = (res, w1)"
    by (cases "mergeTry ev lc cm url ?td ?rn ?xd ?xf ?op (includeExtensions opts) (branch opts) ?w0")
  have fin: "(r, w') = (case releaseTempDir ?td w1 of
                          Inl e \<Rightarrow> (Raised e, w1) | Inr w2 \<Rightarrow> (Returned res, w2))"
    using assms tr by (simp add: merge_unfold)
  have frame: "written w' = written w1 \<and> console w' = console w1
      \<and> (r = Returned res \<or> (\<exists>e. r = Raised e))"
  proof (cases "releaseTempDir ?td w1")
    case (Inl e)
    with fin show ?thesis by simp
  next
    case (Inr w2)
    with fin releaseTempDir_frame [OF Inr] show ?thesis by simp
  qed
  note wr = mergeTry_written [OF tr]
  have one: "written w' = written w \<or> (\<exists>content. written w' = written w @ [(?op, content)])"
    using wr frame by auto
  have two: "written w' = written w \<and> r \<noteq> Returned True
      \<and> (\<not> undeletable w ?td \<longrightarrow> r = Returned False)
      \<and> console w' = console w @ [noFilesMessage]"
    if a: "gitClone ev url (if truthy (branch opts) then branch opts else None) = Inr node"
      and b: "buildFileTree lc cm node ?xd ?rn (includeExtensions opts) = Inr t"
      and c: "childList t = []" for node t
  proof -
    from mergeTry_empty [OF a b c, of ?td ?xf ?op ?w0] tr
    have "res = False" and "w1 = consoleLog (?w0\<lparr>disk := (disk ?w0)(?td \<mapsto> node)\<rparr>) noFilesMessage"
      by simp_all
    then have e: "\<not> res" "written w1 = written w" "console w1 = console w @ [noFilesMessage]"
      and u: "undeletable w1 = undeletable w"
      by (simp_all add: consoleLog_def)
    have "r = Returned False" if "\<not> undeletable w ?td"
    proof -
      from that u have "\<not> isl (releaseTempDir ?td w1)"
        by (simp add: releaseTempDir_def rmSync_def existsSync_def)
      then obtain w2 where "releaseTempDir ?td w1 = Inr w2"
        by (cases "releaseTempDir ?td w1") simp_all
      with fin e(1) show ?thesis by simp
    qed
    with e frame show ?thesis by auto
  qed
  have three: "\<exists>node t.
       gitClone ev url (if truthy (branch opts) then branch opts else None) = Inr node
       \<and> buildFileTree lc cm node ?xd ?rn (includeExtensions opts) = Inr t \<and> childList t \<noteq> []"
    if d: "written w' \<noteq> written w"
  proof -
    from d frame have "written w1 \<noteq> written w" by simp
    with wr show ?thesis by auto
  qed
  from one two three show ?thesis by blast
qed

lemma mdOnly_tree:
  "buildFileTree lcBytes asciiLower mdOnly defaultExcludeDirs ''repo'' (Some [''.ts''])
     = Inr (FileTree ''repo'' TDirectory (Some []))"
  by code_simp

lemma tsRun_written:
  "map fst (written (snd (mergeRepositoryFiles tsEnv lcBytes asciiLower ''https://github.com/u/repo.git''
                      tsOnly freshWorld))) = [''merged-output.txt'']"
  by code_simp

theorem merge_writes_once_if_tree_nonempty_witness:
  "gitClone emptyEnv ''https://github.com/u/repo.git''
       (if truthy (branch tsOnly) then branch tsOnly else None) = Inr mdOnly
   \<and> buildFileTree lcBytes asciiLower mdOnly (orDefault (excludeDirs tsOnly) defaultExcludeDirs)
        (getRepoNameFromUrl ''https://github.com/u/repo.git'') (includeExtensions tsOnly)
       = Inr (FileTree ''repo'' TDirectory (Some []))
   \<and> childList (FileTree ''repo'' TDirectory (Some [])) = []
   \<and> written (snd (mergeRepositoryFiles emptyEnv lcBytes asciiLower ''https://github.com/u/repo.git''
                      tsOnly freshWorld)) = []
   \<and> fst (mergeRepositoryFiles emptyEnv lcBytes asciiLower ''https://github.com/u/repo.git''
             tsOnly freshWorld) = Returned False
   \<and> console (snd (mergeRepositoryFiles emptyEnv lcBytes asciiLower ''https://github.com/u/repo.git''
                      tsOnly freshWorld)) = [noFilesMessage]
   \<and> written (snd (mergeRepositoryFiles tsEnv lcBytes asciiLower ''https://github.com/u/repo.git''
                      tsOnly freshWorld)) \<noteq> written freshWorld
   \<and> (\<exists>content.
         written (snd (mergeRepositoryFiles tsEnv lcBytes asciiLower ''https://github.com/u/repo.git''
                         tsOnly freshWorld)) = [(''merged-output.txt'', content)])
   \<and> (\<exists>t. buildFileTree lcBytes asciiLower fileFirst (orDefault (excludeDirs tsOnly) defaultExcludeDirs)
              (getRepoNameFromUrl ''https://github.com/u/repo.git'') (includeExtensions tsOnly)
             = Inr t \<and> childList t \<noteq> [])"
proof -
  let ?m = "mergeRepositoryFiles emptyEnv lcBytes asciiLower ''https://github.com/u/repo.git''
              tsOnly freshWorld"
  let ?m2 = "mergeRepositoryFiles tsEnv lcBytes asciiLower ''https://github.com/u/repo.git''
               tsOnly freshWorld"
  have a: "gitClone emptyEnv ''https://github.com/u/repo.git''
       (if truthy (branch tsOnly) then branch tsOnly else None) = Inr mdOnly"
    by (simp add: emptyEnv_def)
  have n: "getRepoNameFromUrl ''https://github.com/u/repo.git'' = ''repo''"
    by code_simp
  have b: "buildFileTree lcBytes asciiLower mdOnly (orDefault (excludeDirs tsOnly) defaultExcludeDirs)
        (getRepoNameFromUrl ''https://github.com/u/repo.git'') (includeExtensions tsOnly)
       = Inr (FileTree ''repo'' TDirectory (Some []))"
    by (simp add: n tsOnly_def orDefault_def mdOnly_tree)
  have c: "childList (FileTree ''repo'' TDirectory (Some [])) = []" by simp
  have w: "written freshWorld = []" "console freshWorld = []"
    "\<not> undeletable freshWorld (joinPath (tempBaseDir emptyEnv) (''repo-'' @ uniqueId emptyEnv))"
    by (simp_all add: freshWorld_def)
  have m: "?m = (fst ?m, snd ?m)" by simp
  have m2: "?m2 = (fst ?m2, snd ?m2)" by simp
  have d: "written (snd ?m2) \<noteq> written freshWorld"
    using tsRun_written w(1) by auto
  have g: "gitClone tsEnv ''https://github.com/u/repo.git''
       (if truthy (branch tsOnly) then branch tsOnly else None) = Inr fileFirst"
    by (simp add: tsEnv_def)
  have op: "orDefault (outputPath tsOnly) ''merged-output.txt'' = ''merged-output.txt''"
    by (simp add: tsOnly_def orDefault_def)
  note first = merge_writes_once_if_tree_nonempty [OF m]
  note second = merge_writes_once_if_tree_nonempty [OF m2]
  from first a b c w have e: "written (snd ?m) = []" "fst ?m = Returned False"
    "console (snd ?m) = [noFilesMessage]" by auto
  from second d w(1) op have f: "\<exists>content. written (snd ?m2) = [(''merged-output.txt'', content)]"
    by auto
  from second d g have h: "\<exists>t. buildFileTree lcBytes asciiLower fileFirst
      (orDefault (excludeDirs tsOnly) defaultExcludeDirs)
      (getRepoNameFromUrl ''https://github.com/u/repo.git'') (includeExtensions tsOnly) = Inr t
      \<and> childList t \<noteq> []" by auto
  from a b c d e f h show ?thesis by blast
qed

text \<open>
  C9. The claim does not hold of the release that \<open>mergeRepositoryFiles\<close> performs in its
  \<open>finally\<close> block: \<open>fs.rmSync\<close> stands there outside any \<open>try\<close>, so a removal that fails
  is not suppressed. In a state where the temporary directory is on disk and cannot be
  removed, the release raises the error of \<open>rmSync\<close> and leaves the directory registered; a
  run that has cloned, merged and written its output file is then rejected with that error,
  where the same run returns \<open>true\<close> when the removal goes through. \<open>cleanup\<close>, in the same
  state, swallows the error and returns.
\<close>

theorem finally_release_raises:
  "releaseTempDir ''/tmp/github-merger/repo-1'' lockedWorld
     = Inl (Error ''EPERM: operation not permitted'')
   \<and> fst (mergeRepositoryFiles tsEnv lcBytes asciiLower ''https://github.com/u/repo.git''
            tsOnly busyWorld) = Raised (Error ''EPERM: operation not permitted'')
   \<and> map fst (written (snd (mergeRepositoryFiles tsEnv lcBytes asciiLower
                               ''https://github.com/u/repo.git'' tsOnly busyWorld)))
       = [''merged-output.txt'']
   \<and> tempDirectories (snd (mergeRepositoryFiles tsEnv lcBytes asciiLower
                             ''https://github.com/u/repo.git'' tsOnly busyWorld))
       = [''/tmp/github-merger/repo-2'']
   \<and> fst (mergeRepositoryFiles tsEnv lcBytes asciiLower ''https://github.com/u/repo.git''
            tsOnly freshWorld) = Returned True
   \<and> cleanup lockedWorld = consoleLog lockedWorld cleanupMessage
   \<and> existsSync (cleanup lockedWorld) ''/tmp/github-merger/repo-1''"
proof -
  have a: "releaseTempDir ''/tmp/github-merger/repo-1'' lockedWorld
     = Inl (Error ''EPERM: operation not permitted'')"
    by (simp add: releaseTempDir_def rmSync_def existsSync_def lockedWorld_def)
  have b: "fst (mergeRepositoryFiles tsEnv lcBytes asciiLower ''https://github.com/u/repo.git''
            tsOnly busyWorld) = Raised (Error ''EPERM: operation not permitted'')"
    by code_simp
  have c: "map fst (written (snd (mergeRepositoryFiles tsEnv lcBytes asciiLower
                               ''https://github.com/u/repo.git'' tsOnly busyWorld)))
       = [''merged-output.txt'']"
    by code_simp
  have d: "tempDirectories (snd (mergeRepositoryFiles tsEnv lcBytes asciiLower
                             ''https://github.com/u/repo.git'' tsOnly busyWorld))
       = [''/tmp/github-merger/repo-2'']"
    by code_simp
  have e: "fst (mergeRepositoryFiles tsEnv lcBytes asciiLower ''https://github.com/u/repo.git''
            tsOnly freshWorld) = Returned True"
    by code_simp
  have f: "cleanup lockedWorld = consoleLog lockedWorld cleanupMessage"
    by (simp add: cleanup_def consoleLog_def existsSync_def rmSync_def lockedWorld_def)
  have g: "existsSync (cleanup lockedWorld) ''/tmp/github-merger/repo-1''"
    by (simp add: f) (simp add: consoleLog_def existsSync_def lockedWorld_def)
  from a b c d e f g show ?thesis by (simp only: simp_thms)
qed

end
